theory Spec2Isabelle
  imports Complex_Main
begin

section \<open>JavaScript values and objects\<close>

text \<open>
  The values the mixin engine (\<^verbatim>\<open>src/models/mixins.js\<close>) and the order model handle.
  Numbers are the finite doubles, each the real it denotes; \<^verbatim>\<open>NaN\<close> and the infinities
  are outside the model.  A function value is opaque and carries its name.
  An object literal or spread result is an association list in property order; properties
  inherited from \<^verbatim>\<open>Object.prototype\<close> are outside the model.
\<close>

datatype jsval =
    JUndefined
  | JNull
  | JBool bool
  | JNum real
  | JStr string
  | JFun string
  | JArr "jsval list"
  | JObj "(string \<times> jsval) list"

type_synonym fields = "(string \<times> jsval) list"

text \<open>Every error of the source is \<^verbatim>\<open>new Error(message)\<close>; the engine itself raises \<^verbatim>\<open>TypeError\<close>
  on \<^verbatim>\<open>undefined.x\<close>, on calling a non-function and on reducing an empty array.\<close>

datatype error = Error string | TypeError

text \<open>JavaScript truthiness (\<^verbatim>\<open>!x\<close>, \<^verbatim>\<open>x ? a : b\<close>, \<^verbatim>\<open>x && y\<close>).\<close>

fun truthy :: "jsval \<Rightarrow> bool" where
  "truthy JUndefined = False"
| "truthy JNull = False"
| "truthy (JBool b) = b"
| "truthy (JNum r) = (r \<noteq> 0)"
| "truthy (JStr s) = (s \<noteq> [])"
| "truthy (JFun f) = True"
| "truthy (JArr xs) = True"
| "truthy (JObj ps) = True"

fun jsTypeof :: "jsval \<Rightarrow> string" where
  "jsTypeof JUndefined = ''undefined''"
| "jsTypeof JNull = ''object''"
| "jsTypeof (JBool b) = ''boolean''"
| "jsTypeof (JNum r) = ''number''"
| "jsTypeof (JStr s) = ''string''"
| "jsTypeof (JFun f) = ''function''"
| "jsTypeof (JArr xs) = ''object''"
| "jsTypeof (JObj ps) = ''object''"

fun isPrimitive :: "jsval \<Rightarrow> bool" where
  "isPrimitive (JFun f) = False"
| "isPrimitive (JArr xs) = False"
| "isPrimitive (JObj ps) = False"
| "isPrimitive v = True"

text \<open>\<^verbatim>\<open>a === b\<close> and the SameValueZero of \<^verbatim>\<open>Array.prototype.includes\<close>: primitives compare by
  value; two objects compare by identity, which a value model does not have, so an object
  is taken to be a fresh one and equal to nothing.\<close>

definition strictEq :: "jsval \<Rightarrow> jsval \<Rightarrow> bool" where
  "strictEq a b = (isPrimitive a \<and> a = b)"

definition arrayIncludes :: "jsval list \<Rightarrow> jsval \<Rightarrow> bool" where
  "arrayIncludes xs v = list_ex (\<lambda>x. strictEq x v) xs"

text \<open>\<^verbatim>\<open>o[k]\<close> on own string-keyed properties: \<^verbatim>\<open>undefined\<close> when absent.\<close>

definition getProp :: "fields \<Rightarrow> string \<Rightarrow> jsval" where
  "getProp ps k = (case map_of ps k of Some v \<Rightarrow> v | None \<Rightarrow> JUndefined)"

text \<open>\<^verbatim>\<open>{...a, ...b}\<close> on string-keyed properties: a key of \<^verbatim>\<open>a\<close> keeps its place and takes
  the value of \<^verbatim>\<open>b\<close>, a new key of \<^verbatim>\<open>b\<close> goes to the end.\<close>

definition spreadFields :: "fields \<Rightarrow> fields \<Rightarrow> fields" where
  "spreadFields a b =
     map (\<lambda>kv. (fst kv, case map_of b (fst kv) of Some v \<Rightarrow> v | None \<Rightarrow> snd kv)) a
     @ filter (\<lambda>kv. map_of a (fst kv) = None) b"

text \<open>\<^verbatim>\<open>Array.prototype.join(',')\<close>, which the template literals \<^verbatim>\<open>`${array}`\<close> call.\<close>

fun join :: "string list \<Rightarrow> string" where
  "join [] = []"
| "join [x] = x"
| "join (x # y # ys) = x @ '','' @ join (y # ys)"

section \<open>Property keys, validation specs, updaters and guard closures\<close>

text \<open>
  A guard takes property keys that are names or functions returning a name.  The functions
  the repository passes are closures of four curried helpers; a closure is represented by
  the helper and its captured arguments.
\<close>

datatype expr = ExprName string | ExprRegExp string

datatype keyfn =
    FreezeOnApproval string
  | FreezeOnCompletion string
  | RequiredForCompletion string
  | CheckFormat string expr

datatype propKey = Literal string | Computed keyfn

text \<open>What a key function returns: a name, \<^verbatim>\<open>null\<close> or \<^verbatim>\<open>undefined\<close>.\<close>

datatype key = KString string | KNull | KUndefined

fun toPropertyKey :: "key \<Rightarrow> string" where
  "toPropertyKey (KString s) = s"
| "toPropertyKey KNull = ''null''"
| "toPropertyKey KUndefined = ''undefined''"

text \<open>An array element inside \<^verbatim>\<open>join\<close>: \<^verbatim>\<open>null\<close> and \<^verbatim>\<open>undefined\<close> print as the empty string.\<close>

fun keyToString :: "key \<Rightarrow> string" where
  "keyToString (KString s) = s"
| "keyToString KNull = []"
| "keyToString KUndefined = []"

text \<open>The order model has two copies in the repository (the first and the second half of
  \<^verbatim>\<open>src/unnamed/part_002\<close>); their \<^verbatim>\<open>statusChangeValid\<close> differ in one table entry and
  are kept apart by the suffixes \<^verbatim>\<open>_a\<close> (lines 98-125) and \<^verbatim>\<open>_b\<close> (lines 442-470).\<close>

datatype isValidFn = StatusChangeValid_a | StatusChangeValid_b

record validation =
  v_propKey :: string
  v_isValid :: "isValidFn option"
  v_values :: "jsval list option"
  v_regex :: "expr option"
  v_typeof :: "string option"
  v_maxnum :: "real option"
  v_maxlen :: "real option"

datatype updaterFn = RecalcTotal

record updater =
  u_propKey :: string
  u_update :: updaterFn

text \<open>A guard: one of the curried functions of \<^verbatim>\<open>mixins.js\<close> applied to its first
  argument list.  The mixin sets store such closures.\<close>

datatype mixin =
    EncryptProperties "propKey list"
  | FreezeProperties bool "propKey list"
  | RequireProperties "propKey list"
  | HashPasswords "propKey list"
  | AllowProperties bool "propKey list"
  | ValidateProperties "validation list"
  | UpdateProperties bool "updater list"

type_synonym mixinSet = "(string \<times> mixin) list"

text \<open>
  An object the engine composes over: its string-keyed properties and the three
  symbol-keyed ones, \<^verbatim>\<open>PREVMODEL\<close>, \<^verbatim>\<open>mixinSets[mixinType.pre]\<close> and
  \<^verbatim>\<open>mixinSets[mixinType.post]\<close>; \<^verbatim>\<open>None\<close> is an absent property.  A \<^verbatim>\<open>Map\<close> is the list of
  its entries in insertion order.
\<close>

datatype object = Obj
  (props: fields)
  (prevModel: "object option")
  (preMixins: "mixinSet option")
  (postMixins: "mixinSet option")

datatype mixinType = Pre | Post | OtherType

text \<open>What the engine imports and this repository's sources do not define: \<^verbatim>\<open>encrypt\<close> and
  \<^verbatim>\<open>hash\<close> of \<^verbatim>\<open>./utils\<close>, \<^verbatim>\<open>RegExp.prototype.test\<close> on a pattern, the conversion of a
  non-number to a number in \<^verbatim>\<open>a > b\<close> (\<^verbatim>\<open>None\<close> is \<^verbatim>\<open>NaN\<close>), the arity of a function, and
  \<^verbatim>\<open>+\<close> on two numbers.  A number of the program is a double, which is a real, but the sum
  of two doubles is rounded to a double: \<^verbatim>\<open>addNumbers\<close> is that rounded sum, so that nothing
  proved for every \<^verbatim>\<open>deps\<close> relies on a law of exact addition.\<close>

record deps =
  encrypt :: "jsval \<Rightarrow> jsval"
  hash :: "jsval \<Rightarrow> jsval"
  regexpTest :: "expr \<Rightarrow> jsval \<Rightarrow> bool"
  toNumber :: "jsval \<Rightarrow> real option"
  fnLength :: "string \<Rightarrow> nat"
  addNumbers :: "real \<Rightarrow> real \<Rightarrow> real"

definition get :: "object \<Rightarrow> string \<Rightarrow> jsval" where
  "get o1 k = getProp (props o1) k"

text \<open>\<^verbatim>\<open>{...a, ...b}\<close> on objects: enumerable own symbol-keyed properties are copied too.\<close>

definition orElse :: "'a option \<Rightarrow> 'a option \<Rightarrow> 'a option" where
  "orElse b a = (case b of Some x \<Rightarrow> Some x | None \<Rightarrow> a)"

definition spread :: "object \<Rightarrow> object \<Rightarrow> object" where
  "spread a b = Obj (spreadFields (props a) (props b))
                    (orElse (prevModel b) (prevModel a))
                    (orElse (preMixins b) (preMixins a))
                    (orElse (postMixins b) (postMixins a))"

definition plain :: "fields \<Rightarrow> object" where
  "plain ps = Obj ps None None None"

section \<open>The mixin engine (\<^verbatim>\<open>src/models/mixins.js\<close>)\<close>

definition mixinSetOf :: "mixinType \<Rightarrow> object \<Rightarrow> mixinSet option" where
  "mixinSetOf t o1 = (case t of Pre \<Rightarrow> preMixins o1 | Post \<Rightarrow> postMixins o1 | OtherType \<Rightarrow> None)"

definition withMixinSet :: "mixinType \<Rightarrow> mixinSet \<Rightarrow> object \<Rightarrow> object" where
  "withMixinSet t s o1 =
     (case t of
        Pre \<Rightarrow> Obj (props o1) (prevModel o1) (Some s) (postMixins o1)
      | Post \<Rightarrow> Obj (props o1) (prevModel o1) (preMixins o1) (Some s)
      | OtherType \<Rightarrow> o1)"

definition has :: "mixinSet \<Rightarrow> string \<Rightarrow> bool" where
  "has s name = (map_of s name \<noteq> None)"

text \<open>\<^verbatim>\<open>updateMixins\<close> (lines 81-97).  \<^verbatim>\<open>cb()\<close> builds a closure and cannot fail, so it is
  passed evaluated.  \<^verbatim>\<open>mixinSet.set\<close> on an absent name appends an entry.\<close>

definition updateMixins :: "mixinType \<Rightarrow> object \<Rightarrow> string \<Rightarrow> mixin \<Rightarrow> error + object" where
  "updateMixins t o1 name cb =
     (if t = OtherType then Inl (Error ''invalid mixin type'')
      else
        let mixinSet = (case mixinSetOf t o1 of Some s \<Rightarrow> s | None \<Rightarrow> []) in
        if \<not> has mixinSet name then Inr (withMixinSet t (mixinSet @ [(name, cb)]) o1)
        else Inr o1)"


text \<open>\<^verbatim>\<open>RegEx.test\<close> (lines 270-275): a name among \<^verbatim>\<open>Object.keys(RegEx)\<close> selects that
  member, anything else is used as it is.  The member \<^verbatim>\<open>test\<close> is a function and a name
  that is no key is a string: neither has a method \<^verbatim>\<open>test\<close>.\<close>

definition RegEx_test :: "deps \<Rightarrow> expr \<Rightarrow> jsval \<Rightarrow> error + bool" where
  "RegEx_test d e val =
     (case e of
        ExprRegExp p \<Rightarrow> Inr (regexpTest d e val)
      | ExprName n \<Rightarrow>
          if n \<in> set [''email'', ''ipv4Address'', ''ipv6Address'', ''phone'']
          then Inr (regexpTest d e val)
          else Inl TypeError)"

subsection \<open>The key functions of the order model and \<^verbatim>\<open>checkFormat\<close>\<close>

text \<open>\<^verbatim>\<open>freezeOnApproval\<close>, \<^verbatim>\<open>freezeOnCompletion\<close>, \<^verbatim>\<open>requiredForCompletion\<close>
  (\<^verbatim>\<open>part_002\<close> lines 64-96, the same text at 406-440) and \<^verbatim>\<open>checkFormat\<close>
  (\<^verbatim>\<open>mixins.js\<close> lines 442-447).  \<^verbatim>\<open>o[PREVMODEL].orderStatus\<close> on an object without
  \<^verbatim>\<open>PREVMODEL\<close> is a \<^verbatim>\<open>TypeError\<close>.\<close>

definition freezeOnApproval :: "string \<Rightarrow> object \<Rightarrow> error + key" where
  "freezeOnApproval propKey o1 =
     (case prevModel o1 of
        None \<Rightarrow> Inl TypeError
      | Some p \<Rightarrow>
          Inr (if \<not> strictEq (get p ''orderStatus'') (JStr ''PENDING'')
               then KString propKey else KNull))"

definition freezeOnCompletion :: "string \<Rightarrow> object \<Rightarrow> error + key" where
  "freezeOnCompletion propKey o1 =
     (case prevModel o1 of
        None \<Rightarrow> Inl TypeError
      | Some p \<Rightarrow>
          Inr (if arrayIncludes [JStr ''COMPLETE'', JStr ''CANCELED''] (get p ''orderStatus'')
               then KString propKey else KNull))"

definition requiredForCompletion :: "string \<Rightarrow> object \<Rightarrow> error + key" where
  "requiredForCompletion propKey o1 =
     (if \<not> truthy (get o1 ''orderStatus'') then Inr KUndefined
      else Inr (if strictEq (get o1 ''orderStatus'') (JStr ''COMPLETE'')
                then KString propKey else KUndefined))"

definition checkFormat :: "deps \<Rightarrow> string \<Rightarrow> expr \<Rightarrow> object \<Rightarrow> error + key" where
  "checkFormat d propKey e o1 =
     (if truthy (get o1 propKey) then
        (case RegEx_test d e (get o1 propKey) of
           Inl err \<Rightarrow> Inl err
         | Inr ok \<Rightarrow> if \<not> ok then Inl (Error (''invalid '' @ propKey)) else Inr (KString propKey))
      else Inr (KString propKey))"

fun callKeyFn :: "deps \<Rightarrow> keyfn \<Rightarrow> object \<Rightarrow> error + key" where
  "callKeyFn d (FreezeOnApproval k) o1 = freezeOnApproval k o1"
| "callKeyFn d (FreezeOnCompletion k) o1 = freezeOnCompletion k o1"
| "callKeyFn d (RequiredForCompletion k) o1 = requiredForCompletion k o1"
| "callKeyFn d (CheckFormat k e) o1 = checkFormat d k e o1"

text \<open>\<^verbatim>\<open>getDynamicProps\<close> (lines 106-108): \<^verbatim>\<open>map\<close> calls the functions in order, and the first
  exception ends it.\<close>

fun getDynamicProps :: "deps \<Rightarrow> object \<Rightarrow> propKey list \<Rightarrow> error + key list" where
  "getDynamicProps d o1 [] = Inr []"
| "getDynamicProps d o1 (k # ks) =
     (case (case k of Literal s \<Rightarrow> Inr (KString s) | Computed f \<Rightarrow> callKeyFn d f o1) of
        Inl err \<Rightarrow> Inl err
      | Inr r \<Rightarrow>
          (case getDynamicProps d o1 ks of
             Inl err \<Rightarrow> Inl err
           | Inr rs \<Rightarrow> Inr (r # rs)))"

subsection \<open>The guards\<close>

text \<open>\<^verbatim>\<open>Object.keys(o)\<close>: the string keys in property order.\<close>

definition Object_keys :: "object \<Rightarrow> string list" where
  "Object_keys o1 = map fst (props o1)"

text \<open>The inner \<^verbatim>\<open>encryptProps\<close> and \<^verbatim>\<open>hashPwds\<close> (lines 118-123, 191-196) with the
  transform as a parameter: one small object per key, then
  \<^verbatim>\<open>reduce((p, c) => ({ ...c, ...p }))\<close> with no initial value, a \<^verbatim>\<open>TypeError\<close> on the
  empty array.\<close>

definition transformProps :: "(jsval \<Rightarrow> jsval) \<Rightarrow> object \<Rightarrow> key list \<Rightarrow> error + fields" where
  "transformProps f o1 keys =
     (case map (\<lambda>key. if truthy (get o1 (toPropertyKey key))
                       then [(toPropertyKey key, f (get o1 (toPropertyKey key)))]
                       else []) keys of
        [] \<Rightarrow> Inl TypeError
      | x # xs \<Rightarrow> Inr (foldl (\<lambda>p c. spreadFields c p) x xs))"

text \<open>\<^verbatim>\<open>encryptProperties\<close> (lines 115-136).\<close>

definition encryptProperties :: "deps \<Rightarrow> propKey list \<Rightarrow> object \<Rightarrow> error + object" where
  "encryptProperties d propKeys o1 =
     (case getDynamicProps d o1 propKeys of
        Inl err \<Rightarrow> Inl err
      | Inr keys \<Rightarrow>
          (case updateMixins Pre o1 ''encryptProperties'' (EncryptProperties propKeys) of
             Inl err \<Rightarrow> Inl err
           | Inr mixins \<Rightarrow>
               (case transformProps (encrypt d) o1 keys of
                  Inl err \<Rightarrow> Inl err
                | Inr ps \<Rightarrow> Inr (spread mixins (plain ps)))))"

text \<open>\<^verbatim>\<open>freezeProperties\<close> (lines 144-167).  A resolved key that is \<^verbatim>\<open>null\<close> equals no
  key of \<^verbatim>\<open>Object.keys(o)\<close>.\<close>

definition freezeProperties :: "deps \<Rightarrow> bool \<Rightarrow> propKey list \<Rightarrow> object \<Rightarrow> error + object" where
  "freezeProperties d isUpdate propKeys o1 =
     (case (if isUpdate then
              (case getDynamicProps d o1 propKeys of
                 Inl err \<Rightarrow> Inl err
               | Inr keys \<Rightarrow>
                   let mutations = filter (\<lambda>key. KString key \<in> set keys) (Object_keys o1) in
                   if length mutations > 0
                   then Inl (Error (''cannot update readonly properties: '' @ join mutations))
                   else Inr ())
            else Inr ()) of
        Inl err \<Rightarrow> Inl err
      | Inr u \<Rightarrow> updateMixins Pre o1 ''freezeProperties'' (FreezeProperties True propKeys))"

text \<open>\<^verbatim>\<open>requireProperties\<close> (lines 174-181).  \<^verbatim>\<open>o[key]\<close> turns the key into a property
  name, so a key that is \<^verbatim>\<open>undefined\<close> reads the property \<^verbatim>\<open>"undefined"\<close>.\<close>

definition requireProperties :: "deps \<Rightarrow> propKey list \<Rightarrow> object \<Rightarrow> error + object" where
  "requireProperties d propKeys o1 =
     (case getDynamicProps d o1 propKeys of
        Inl err \<Rightarrow> Inl err
      | Inr keys \<Rightarrow>
          let missing = filter (\<lambda>key. \<not> truthy (get o1 (toPropertyKey key))) keys in
          if length missing > 0
          then Inl (Error (''missing required properties: '' @ join (map keyToString missing)))
          else Inr o1)"

text \<open>\<^verbatim>\<open>hashPasswords\<close> (lines 188-209), with the \<^verbatim>\<open>hash\<close> that \<^verbatim>\<open>hashPasswordsMixin\<close> passes.\<close>

definition hashPasswords :: "deps \<Rightarrow> propKey list \<Rightarrow> object \<Rightarrow> error + object" where
  "hashPasswords d propKeys o1 =
     (case getDynamicProps d o1 propKeys of
        Inl err \<Rightarrow> Inl err
      | Inr keys \<Rightarrow>
          (case updateMixins Pre o1 ''hashPasswords'' (HashPasswords propKeys) of
             Inl err \<Rightarrow> Inl err
           | Inr mixins \<Rightarrow>
               (case transformProps (hash d) o1 keys of
                  Inl err \<Rightarrow> Inl err
                | Inr ps \<Rightarrow> Inr (spread mixins (plain ps)))))"

definition internalPropList :: "key list" where
  "internalPropList = []"

text \<open>\<^verbatim>\<open>allowProperties\<close> (lines 218-241).\<close>

definition allowProperties :: "deps \<Rightarrow> bool \<Rightarrow> propKey list \<Rightarrow> object \<Rightarrow> error + object" where
  "allowProperties d isUpdate propKeys o1 =
     (case (if isUpdate then
              (case getDynamicProps d o1 propKeys of
                 Inl err \<Rightarrow> Inl err
               | Inr keys \<Rightarrow>
                   let allowList = keys @ internalPropList;
                       unknownProps = filter (\<lambda>key. KString key \<notin> set allowList) (Object_keys o1)
                   in if length unknownProps > 0
                      then Inl (Error (''invalid properties: '' @ join unknownProps))
                      else Inr ())
            else Inr ()) of
        Inl err \<Rightarrow> Inl err
      | Inr u \<Rightarrow> updateMixins Pre o1 ''allowProperties'' (AllowProperties True propKeys))"


section \<open>The order model: items, totals and status changes (\<^verbatim>\<open>src/unnamed/part_002\<close>)\<close>

text \<open>\<^verbatim>\<open>i['itemId']\<close> on a value: own properties of an object literal; a primitive or an array
  has no such member; on \<^verbatim>\<open>null\<close> and \<^verbatim>\<open>undefined\<close> the access itself throws.\<close>

definition member :: "jsval \<Rightarrow> string \<Rightarrow> error + jsval" where
  "member v k =
     (case v of
        JUndefined \<Rightarrow> Inl TypeError
      | JNull \<Rightarrow> Inl TypeError
      | JObj ps \<Rightarrow> Inr (getProp ps k)
      | _ \<Rightarrow> Inr JUndefined)"

text \<open>The callback of \<^verbatim>\<open>_items.every\<close>: \<^verbatim>\<open>i['itemId'] && typeof i['price'] === 'number'\<close>.\<close>

definition itemValid :: "jsval \<Rightarrow> error + bool" where
  "itemValid i =
     (case member i ''itemId'' of
        Inl err \<Rightarrow> Inl err
      | Inr itemId \<Rightarrow>
          if \<not> truthy itemId then Inr False
          else (case member i ''price'' of
                  Inl err \<Rightarrow> Inl err
                | Inr price \<Rightarrow> Inr (jsTypeof price = ''number'')))"

fun every :: "('a \<Rightarrow> error + bool) \<Rightarrow> 'a list \<Rightarrow> error + bool" where
  "every f [] = Inr True"
| "every f (x # xs) =
     (case f x of
        Inl err \<Rightarrow> Inl err
      | Inr ok \<Rightarrow> if ok then every f xs else Inr False)"

fun some :: "('a \<Rightarrow> error + bool) \<Rightarrow> 'a list \<Rightarrow> error + bool" where
  "some f [] = Inr False"
| "some f (x # xs) =
     (case f x of
        Inl err \<Rightarrow> Inl err
      | Inr hit \<Rightarrow> if hit then Inr True else some f xs)"

text \<open>\<^verbatim>\<open>checkItems\<close> (lines 34-49, the same text at 373-387).\<close>

definition checkItems :: "jsval \<Rightarrow> error + jsval list" where
  "checkItems items =
     (if \<not> truthy items then Inl (Error ''order contains no items'')
      else
        let items' = (case items of JArr xs \<Rightarrow> xs | _ \<Rightarrow> [items]) in
        if length items' > 0 then
          (case every itemValid items' of
             Inl err \<Rightarrow> Inl err
           | Inr ok \<Rightarrow> if ok then Inr items' else Inl (Error ''order items invalid''))
        else Inl (Error ''order items invalid''))"

text \<open>\<^verbatim>\<open>item.price\<close> inside the reduction of \<^verbatim>\<open>calcTotal\<close>.  After \<^verbatim>\<open>checkItems\<close> it is a
  number (lemma \<open>checkItems_prices\<close> below); the other branch is never taken there.\<close>

definition price :: "jsval \<Rightarrow> real" where
  "price item = (case member item ''price'' of Inr (JNum p) \<Rightarrow> p | _ \<Rightarrow> 0)"

text \<open>\<^verbatim>\<open>calcTotal\<close> (lines 51-56, the same text at 393-398):
  \<^verbatim>\<open>_items.reduce((total, item) => total += item.price, 0)\<close>.\<close>

definition calcTotal :: "deps \<Rightarrow> jsval \<Rightarrow> error + jsval" where
  "calcTotal d items =
     (case checkItems items of
        Inl err \<Rightarrow> Inl err
      | Inr items' \<Rightarrow> Inr (JNum (foldl (\<lambda>acc item. addNumbers d acc (price item)) 0 items')))"

text \<open>\<^verbatim>\<open>invalidStatusChange(from, to)\<close> (lines 98-100, 442-444):
  \<^verbatim>\<open>propVal === to && o[PREVMODEL].orderStatus === from\<close>.\<close>

definition invalidStatusChange :: "jsval \<Rightarrow> jsval \<Rightarrow> object \<Rightarrow> jsval \<Rightarrow> error + bool" where
  "invalidStatusChange from to o1 propVal =
     (if strictEq propVal to then
        (case prevModel o1 of
           None \<Rightarrow> Inl TypeError
         | Some p \<Rightarrow> Inr (strictEq (get p ''orderStatus'') from))
      else Inr False)"

text \<open>The table of the first copy (lines 102-113).  Its third entry is written
  \<^verbatim>\<open>invalidStatusChange(OrderStatus.SHIPPING, orderStatus.APPROVED)\<close>, where \<^verbatim>\<open>orderStatus\<close>
  is the string constant \<^verbatim>\<open>'orderStatus'\<close> of line 23: the member \<^verbatim>\<open>APPROVED\<close> of a string
  is \<^verbatim>\<open>undefined\<close>.\<close>

definition invalidStatusChanges_a :: "(jsval \<times> jsval) list" where
  "invalidStatusChanges_a =
     [(JStr ''APPROVED'', JStr ''PENDING''),
      (JStr ''SHIPPING'', JStr ''PENDING''),
      (JStr ''SHIPPING'', JUndefined),
      (JStr ''PENDING'', JStr ''SHIPPING''),
      (JStr ''PENDING'', JStr ''COMPLETE'')]"

text \<open>The table of the second copy (lines 446-457).\<close>

definition invalidStatusChanges_b :: "(jsval \<times> jsval) list" where
  "invalidStatusChanges_b =
     [(JStr ''APPROVED'', JStr ''PENDING''),
      (JStr ''SHIPPING'', JStr ''PENDING''),
      (JStr ''SHIPPING'', JStr ''APPROVED''),
      (JStr ''PENDING'', JStr ''SHIPPING''),
      (JStr ''PENDING'', JStr ''COMPLETE'')]"

text \<open>\<^verbatim>\<open>statusChangeValid\<close> (lines 118-125 and 462-470), over its table.\<close>

definition statusChangeValid :: "(jsval \<times> jsval) list \<Rightarrow> object \<Rightarrow> jsval \<Rightarrow> error + bool" where
  "statusChangeValid invalidStatusChanges o1 propVal =
     (if \<not> truthy (case prevModel o1 of None \<Rightarrow> JUndefined | Some p \<Rightarrow> get p ''orderStatus'')
      then Inr True
      else
        (case some (\<lambda>i. invalidStatusChange (fst i) (snd i) o1 propVal) invalidStatusChanges of
           Inl err \<Rightarrow> Inl err
         | Inr hit \<Rightarrow> if hit then Inl (Error ''invalid status change'') else Inr True))"

definition statusChangeValid_a :: "object \<Rightarrow> jsval \<Rightarrow> error + bool" where
  "statusChangeValid_a = statusChangeValid invalidStatusChanges_a"

definition statusChangeValid_b :: "object \<Rightarrow> jsval \<Rightarrow> error + bool" where
  "statusChangeValid_b = statusChangeValid invalidStatusChanges_b"

fun callIsValid :: "isValidFn \<Rightarrow> object \<Rightarrow> jsval \<Rightarrow> error + bool" where
  "callIsValid StatusChangeValid_a o1 propVal = statusChangeValid_a o1 propVal"
| "callIsValid StatusChangeValid_b o1 propVal = statusChangeValid_b o1 propVal"

text \<open>The updater of the order model: \<^verbatim>\<open>(o, propVal) => ({ orderTotal: calcTotal(propVal) })\<close>
  (lines 259-261; \<^verbatim>\<open>recalcTotal\<close>, lines 477-479).\<close>

definition recalcTotal :: "deps \<Rightarrow> object \<Rightarrow> jsval \<Rightarrow> error + fields" where
  "recalcTotal d o1 propVal =
     (case calcTotal d propVal of
        Inl err \<Rightarrow> Inl err
      | Inr t \<Rightarrow> Inr [(''orderTotal'', t)])"

fun callUpdate :: "deps \<Rightarrow> updaterFn \<Rightarrow> object \<Rightarrow> jsval \<Rightarrow> error + fields" where
  "callUpdate d RecalcTotal o1 propVal = recalcTotal d o1 propVal"

section \<open>Validation and derived properties (\<^verbatim>\<open>src/models/mixins.js\<close>, lines 281-376)\<close>

text \<open>\<^verbatim>\<open>v > x\<close> for a number \<^verbatim>\<open>v\<close>: \<^verbatim>\<open>undefined\<close> converts to \<^verbatim>\<open>NaN\<close>, \<^verbatim>\<open>null\<close> to 0, a
  boolean to 0 or 1; a comparison with \<^verbatim>\<open>NaN\<close> is false.\<close>

definition greaterThan :: "deps \<Rightarrow> real \<Rightarrow> jsval \<Rightarrow> bool" where
  "greaterThan d v x =
     (case x of
        JNum t \<Rightarrow> v > t
      | JUndefined \<Rightarrow> False
      | JNull \<Rightarrow> v > 0
      | JBool b \<Rightarrow> v > (if b then 1 else 0)
      | _ \<Rightarrow> (case toNumber d x of Some t \<Rightarrow> v > t | None \<Rightarrow> False))"

text \<open>\<^verbatim>\<open>propVal.length\<close>.\<close>

definition lengthOf :: "deps \<Rightarrow> jsval \<Rightarrow> error + jsval" where
  "lengthOf d x =
     (case x of
        JUndefined \<Rightarrow> Inl TypeError
      | JNull \<Rightarrow> Inl TypeError
      | JStr s \<Rightarrow> Inr (JNum (real (length s)))
      | JArr xs \<Rightarrow> Inr (JNum (real (length xs)))
      | JFun f \<Rightarrow> Inr (JNum (real (fnLength d f)))
      | JObj ps \<Rightarrow> Inr (getProp ps ''length'')
      | _ \<Rightarrow> Inr JUndefined)"

text \<open>The six members of \<^verbatim>\<open>validator.tests\<close> (lines 282-289), each behind \<^verbatim>\<open>if (v[key])\<close>
  of \<^verbatim>\<open>validator.isValid\<close> (line 300): a test is enabled when the field of the spec is
  truthy, so a \<^verbatim>\<open>maxnum\<close> of 0 or an empty \<^verbatim>\<open>typeof\<close> string is not.\<close>

definition test_isValid :: "validation \<Rightarrow> object \<Rightarrow> jsval \<Rightarrow> error + bool" where
  "test_isValid v o1 propVal =
     (case v_isValid v of None \<Rightarrow> Inr True | Some f \<Rightarrow> callIsValid f o1 propVal)"

definition test_values :: "validation \<Rightarrow> object \<Rightarrow> jsval \<Rightarrow> error + bool" where
  "test_values v o1 propVal =
     (case v_values v of None \<Rightarrow> Inr True | Some xs \<Rightarrow> Inr (arrayIncludes xs propVal))"

definition test_regex :: "deps \<Rightarrow> validation \<Rightarrow> object \<Rightarrow> jsval \<Rightarrow> error + bool" where
  "test_regex d v o1 propVal =
     (case v_regex v of
        None \<Rightarrow> Inr True
      | Some (ExprName []) \<Rightarrow> Inr True
      | Some e \<Rightarrow> RegEx_test d e propVal)"

definition test_typeof :: "validation \<Rightarrow> object \<Rightarrow> jsval \<Rightarrow> error + bool" where
  "test_typeof v o1 propVal =
     (case v_typeof v of
        None \<Rightarrow> Inr True
      | Some t \<Rightarrow> if t = [] then Inr True else Inr (t = jsTypeof propVal))"

definition test_maxnum :: "deps \<Rightarrow> validation \<Rightarrow> object \<Rightarrow> jsval \<Rightarrow> error + bool" where
  "test_maxnum d v o1 propVal =
     (case v_maxnum v of
        None \<Rightarrow> Inr True
      | Some m \<Rightarrow> if m = 0 then Inr True else Inr (greaterThan d m propVal))"

definition test_maxlen :: "deps \<Rightarrow> validation \<Rightarrow> object \<Rightarrow> jsval \<Rightarrow> error + bool" where
  "test_maxlen d v o1 propVal =
     (case v_maxlen v of
        None \<Rightarrow> Inr True
      | Some m \<Rightarrow>
          if m = 0 then Inr True
          else (case lengthOf d propVal of
                  Inl err \<Rightarrow> Inl err
                | Inr n \<Rightarrow> Inr (greaterThan d m n)))"

text \<open>\<^verbatim>\<open>validator.isValid\<close> (lines 297-305): \<^verbatim>\<open>Object.keys(tests).every(...)\<close> runs the tests
  in the order \<^verbatim>\<open>isValid, values, regex, typeof, maxnum, maxlen\<close> and stops at the first
  that fails.\<close>

definition validator_isValid :: "deps \<Rightarrow> validation \<Rightarrow> object \<Rightarrow> jsval \<Rightarrow> error + bool" where
  "validator_isValid d v o1 propVal =
     every (\<lambda>test. test v o1 propVal)
       [test_isValid, test_values, test_regex d, test_typeof, test_maxnum d, test_maxlen d]"

text \<open>\<^verbatim>\<open>Array.prototype.filter\<close> with a callback that may throw.\<close>

fun filterE :: "('a \<Rightarrow> error + bool) \<Rightarrow> 'a list \<Rightarrow> error + 'a list" where
  "filterE f [] = Inr []"
| "filterE f (x # xs) =
     (case f x of
        Inl err \<Rightarrow> Inl err
      | Inr keep \<Rightarrow>
          (case filterE f xs of
             Inl err \<Rightarrow> Inl err
           | Inr ys \<Rightarrow> Inr (if keep then x # ys else ys)))"

text \<open>\<^verbatim>\<open>validateProperties\<close> (lines 312-333).\<close>

definition invalidSpec :: "deps \<Rightarrow> object \<Rightarrow> validation \<Rightarrow> error + bool" where
  "invalidSpec d o1 v =
     (let propVal = get o1 (v_propKey v) in
      if \<not> truthy propVal then Inr False
      else (case validator_isValid d v o1 propVal of
              Inl err \<Rightarrow> Inl err
            | Inr ok \<Rightarrow> Inr (\<not> ok)))"

definition validateProperties :: "deps \<Rightarrow> validation list \<Rightarrow> object \<Rightarrow> error + object" where
  "validateProperties d validations o1 =
     (case filterE (invalidSpec d o1) validations of
        Inl err \<Rightarrow> Inl err
      | Inr invalid \<Rightarrow>
          if length invalid > 0
          then Inl (Error (''invalid value for '' @ join (map v_propKey invalid)))
          else updateMixins Post o1 ''validateProperties'' (ValidateProperties validations))"

text \<open>\<^verbatim>\<open>Array.prototype.map\<close> with a callback that may throw.\<close>

fun mapE :: "('a \<Rightarrow> error + 'b) \<Rightarrow> 'a list \<Rightarrow> error + 'b list" where
  "mapE f [] = Inr []"
| "mapE f (x # xs) =
     (case f x of
        Inl err \<Rightarrow> Inl err
      | Inr y \<Rightarrow>
          (case mapE f xs of
             Inl err \<Rightarrow> Inl err
           | Inr ys \<Rightarrow> Inr (y # ys)))"

text \<open>The inner \<^verbatim>\<open>updateProps\<close> (lines 353-363); the reduction
  \<^verbatim>\<open>reduce((p, c) => ({ ...p, ...c }))\<close> runs on a non-empty array.\<close>

definition updateProps :: "deps \<Rightarrow> bool \<Rightarrow> updater list \<Rightarrow> object \<Rightarrow> error + fields" where
  "updateProps d isUpdate updaters o1 =
     (if isUpdate then
        let updates = filter (\<lambda>u. truthy (get o1 (u_propKey u))) updaters in
        if length updates > 0 then
          (case mapE (\<lambda>u. callUpdate d (u_update u) o1 (get o1 (u_propKey u))) updates of
             Inl err \<Rightarrow> Inl err
           | Inr rs \<Rightarrow> Inr (foldl spreadFields (hd rs) (tl rs)))
        else Inr []
      else Inr [])"

text \<open>\<^verbatim>\<open>updateProperties\<close> (lines 352-376).\<close>

definition updateProperties :: "deps \<Rightarrow> bool \<Rightarrow> updater list \<Rightarrow> object \<Rightarrow> error + object" where
  "updateProperties d isUpdate updaters o1 =
     (case updateMixins Pre o1 ''updateProperties'' (UpdateProperties True updaters) of
        Inl err \<Rightarrow> Inl err
      | Inr mixins \<Rightarrow>
          (case updateProps d isUpdate updaters o1 of
             Inl err \<Rightarrow> Inl err
           | Inr ps \<Rightarrow> Inr (spread mixins (plain ps))))"

section \<open>The update pipeline\<close>

text \<open>Calling a guard closure.\<close>

fun applyMixin :: "deps \<Rightarrow> mixin \<Rightarrow> object \<Rightarrow> error + object" where
  "applyMixin d (EncryptProperties propKeys) o1 = encryptProperties d propKeys o1"
| "applyMixin d (FreezeProperties isUpdate propKeys) o1 = freezeProperties d isUpdate propKeys o1"
| "applyMixin d (RequireProperties propKeys) o1 = requireProperties d propKeys o1"
| "applyMixin d (HashPasswords propKeys) o1 = hashPasswords d propKeys o1"
| "applyMixin d (AllowProperties isUpdate propKeys) o1 = allowProperties d isUpdate propKeys o1"
| "applyMixin d (ValidateProperties validations) o1 = validateProperties d validations o1"
| "applyMixin d (UpdateProperties isUpdate updaters) o1 = updateProperties d isUpdate updaters o1"

text \<open>Modelled from the spec: \<^verbatim>\<open>compose\<close> is imported from \<^verbatim>\<open>./utils\<close>, which is not among
  the sources.  The specification (section 4.3, step 2) has it apply the functions left to
  right, each consuming the previous one's output; an exception of one of them ends the
  composition.\<close>

fun compose :: "('a \<Rightarrow> error + 'a) list \<Rightarrow> 'a \<Rightarrow> error + 'a" where
  "compose [] x = Inr x"
| "compose (f # fs) x =
     (case f x of
        Inl err \<Rightarrow> Inl err
      | Inr y \<Rightarrow> compose fs y)"

text \<open>\<^verbatim>\<open>Map.prototype.values()\<close>: the values in insertion order.\<close>

definition mapValues :: "mixinSet \<Rightarrow> mixin list" where
  "mapValues s = map snd s"

text \<open>\<^verbatim>\<open>processUpdate\<close> (lines 58-70).  Line 59, \<^verbatim>\<open>changes[PREVMODEL] = model\<close>, is the only
  assignment of the function; \<open>tagged\<close> is \<^verbatim>\<open>changes\<close> after it.  A \<^verbatim>\<open>Map\<close> is truthy
  whatever it holds.\<close>

definition tagged :: "object \<Rightarrow> object \<Rightarrow> object" where
  "tagged model changes = Obj (props changes) (Some model) (preMixins changes) (postMixins changes)"

definition preUpdate :: "deps \<Rightarrow> object \<Rightarrow> object \<Rightarrow> error + object" where
  "preUpdate d model changes =
     (case preMixins model of
        Some s \<Rightarrow> compose (map (applyMixin d) (mapValues s)) (tagged model changes)
      | None \<Rightarrow> Inr (tagged model changes))"

definition postUpdate :: "deps \<Rightarrow> object \<Rightarrow> object \<Rightarrow> error + object" where
  "postUpdate d model updated =
     (case postMixins model of
        Some s \<Rightarrow> compose (map (applyMixin d) (mapValues s)) updated
      | None \<Rightarrow> Inr updated)"

definition processUpdate :: "deps \<Rightarrow> object \<Rightarrow> object \<Rightarrow> error + object" where
  "processUpdate d model changes =
     (case preUpdate d model changes of
        Inl err \<Rightarrow> Inl err
      | Inr updates \<Rightarrow> postUpdate d model (spread model updates))"


section \<open>The engine on a store\<close>

text \<open>
  The engine writes in place at two points: \<^verbatim>\<open>processUpdate\<close> assigns
  \<^verbatim>\<open>changes[PREVMODEL]\<close> (line 59), and \<^verbatim>\<open>updateMixins\<close> adds an entry to the \<^verbatim>\<open>Map\<close> it
  found on its argument (line 89), which every object spread from that argument shares.
  To show what these writes reach, objects and \<^verbatim>\<open>Map\<close>s live in a store and are passed by
  reference: an object holds its string-keyed properties and, under its three symbols,
  references.  \<^verbatim>\<open>Object.freeze\<close> is the flag \<open>c_frozen\<close>.
\<close>

type_synonym ref = nat

record heapObject =
  c_props :: fields
  c_prev :: "ref option"
  c_pre :: "ref option"
  c_post :: "ref option"
  c_frozen :: bool

record store =
  objects :: "ref \<Rightarrow> heapObject"
  mixinMaps :: "ref \<Rightarrow> mixinSet"
  objectCount :: nat
  mapCount :: nat

text \<open>An object literal and \<^verbatim>\<open>new Map()\<close> allocate at the next free reference.\<close>

definition newObject :: "heapObject \<Rightarrow> store \<Rightarrow> ref \<times> store" where
  "newObject c s =
     (objectCount s,
      s\<lparr>objects := (objects s)(objectCount s := c), objectCount := Suc (objectCount s)\<rparr>)"

definition newMap :: "mixinSet \<Rightarrow> store \<Rightarrow> ref \<times> store" where
  "newMap m s =
     (mapCount s,
      s\<lparr>mixinMaps := (mixinMaps s)(mapCount s := m), mapCount := Suc (mapCount s)\<rparr>)"

definition setRef :: "mixinType \<Rightarrow> heapObject \<Rightarrow> ref option" where
  "setRef t c = (case t of Pre \<Rightarrow> c_pre c | Post \<Rightarrow> c_post c | OtherType \<Rightarrow> None)"

definition withSetRef :: "mixinType \<Rightarrow> ref \<Rightarrow> heapObject \<Rightarrow> heapObject" where
  "withSetRef t m c =
     (case t of Pre \<Rightarrow> c\<lparr>c_pre := Some m\<rparr> | Post \<Rightarrow> c\<lparr>c_post := Some m\<rparr> | OtherType \<Rightarrow> c)"

text \<open>\<^verbatim>\<open>{...a, ...b}\<close> as the fields of a new, unfrozen object.\<close>

definition spreadObjects :: "heapObject \<Rightarrow> heapObject \<Rightarrow> heapObject" where
  "spreadObjects a b =
     \<lparr>c_props = spreadFields (c_props a) (c_props b),
      c_prev = orElse (c_prev b) (c_prev a),
      c_pre = orElse (c_pre b) (c_pre a),
      c_post = orElse (c_post b) (c_post a),
      c_frozen = False\<rparr>"

text \<open>\<^verbatim>\<open>{...o, ...ps}\<close> for the object literal \<^verbatim>\<open>ps\<close> a guard has just built.\<close>

definition spreadProps :: "heapObject \<Rightarrow> fields \<Rightarrow> heapObject" where
  "spreadProps a ps = a\<lparr>c_props := spreadFields (c_props a) ps, c_frozen := False\<rparr>"

text \<open>What a guard reads of the object at a reference: its string-keyed properties, the
  entries of its two \<^verbatim>\<open>Map\<close>s, and of \<^verbatim>\<open>o[PREVMODEL]\<close> the string-keyed properties (the
  key functions and \<^verbatim>\<open>invalidStatusChange\<close> read \<^verbatim>\<open>o[PREVMODEL].orderStatus\<close> and nothing
  below).\<close>

definition deref :: "store \<Rightarrow> ref \<Rightarrow> object" where
  "deref s a =
     (let c = objects s a in
      Obj (c_props c)
          (map_option (\<lambda>p. plain (c_props (objects s p))) (c_prev c))
          (map_option (mixinMaps s) (c_pre c))
          (map_option (mixinMaps s) (c_post c)))"

text \<open>\<^verbatim>\<open>updateMixins\<close> (lines 81-97) on the store: \<^verbatim>\<open>mixinSet.set\<close> writes into the \<^verbatim>\<open>Map\<close>
  in place, the object returned is a new one that refers to that \<^verbatim>\<open>Map\<close>.\<close>

definition updateMixins_heap ::
  "mixinType \<Rightarrow> ref \<Rightarrow> string \<Rightarrow> mixin \<Rightarrow> store \<Rightarrow> (error + ref) \<times> store" where
  "updateMixins_heap t a name cb s =
     (if t = OtherType then (Inl (Error ''invalid mixin type''), s)
      else
        let (mixinSet, s1) = (case setRef t (objects s a) of
                                Some m \<Rightarrow> (m, s)
                              | None \<Rightarrow> newMap [] s) in
        if \<not> has (mixinMaps s1 mixinSet) name then
          let s2 = s1\<lparr>mixinMaps := (mixinMaps s1)
                         (mixinSet := mixinMaps s1 mixinSet @ [(name, cb)])\<rparr>;
              (r, s3) = newObject (withSetRef t mixinSet (spreadProps (objects s2 a) [])) s2
          in (Inr r, s3)
        else (Inr a, s1))"

text \<open>The guards on the store.  Their checks and the objects they build from string-keyed
  properties are those of the definitions above, on what they read of their argument.\<close>

definition transformProperties_heap ::
  "string \<Rightarrow> mixin \<Rightarrow> (jsval \<Rightarrow> jsval) \<Rightarrow> deps \<Rightarrow> propKey list \<Rightarrow> ref \<Rightarrow> store
     \<Rightarrow> (error + ref) \<times> store" where
  "transformProperties_heap name cb f d propKeys a s =
     (case getDynamicProps d (deref s a) propKeys of
        Inl err \<Rightarrow> (Inl err, s)
      | Inr keys \<Rightarrow>
          (case updateMixins_heap Pre a name cb s of
             (Inl err, s1) \<Rightarrow> (Inl err, s1)
           | (Inr mixins, s1) \<Rightarrow>
               (case transformProps f (deref s1 a) keys of
                  Inl err \<Rightarrow> (Inl err, s1)
                | Inr ps \<Rightarrow>
                    let (r, s2) = newObject (spreadProps (objects s1 mixins) ps) s1
                    in (Inr r, s2))))"

definition encryptProperties_heap ::
  "deps \<Rightarrow> propKey list \<Rightarrow> ref \<Rightarrow> store \<Rightarrow> (error + ref) \<times> store" where
  "encryptProperties_heap d propKeys a s =
     transformProperties_heap ''encryptProperties'' (EncryptProperties propKeys) (encrypt d)
       d propKeys a s"

definition hashPasswords_heap ::
  "deps \<Rightarrow> propKey list \<Rightarrow> ref \<Rightarrow> store \<Rightarrow> (error + ref) \<times> store" where
  "hashPasswords_heap d propKeys a s =
     transformProperties_heap ''hashPasswords'' (HashPasswords propKeys) (hash d)
       d propKeys a s"

definition freezeProperties_heap ::
  "deps \<Rightarrow> bool \<Rightarrow> propKey list \<Rightarrow> ref \<Rightarrow> store \<Rightarrow> (error + ref) \<times> store" where
  "freezeProperties_heap d isUpdate propKeys a s =
     (case (if isUpdate then
              (case getDynamicProps d (deref s a) propKeys of
                 Inl err \<Rightarrow> Inl err
               | Inr keys \<Rightarrow>
                   let mutations = filter (\<lambda>key. KString key \<in> set keys)
                                     (Object_keys (deref s a)) in
                   if length mutations > 0
                   then Inl (Error (''cannot update readonly properties: '' @ join mutations))
                   else Inr ())
            else Inr ()) of
        Inl err \<Rightarrow> (Inl err, s)
      | Inr u \<Rightarrow> updateMixins_heap Pre a ''freezeProperties'' (FreezeProperties True propKeys) s)"

definition requireProperties_heap ::
  "deps \<Rightarrow> propKey list \<Rightarrow> ref \<Rightarrow> store \<Rightarrow> (error + ref) \<times> store" where
  "requireProperties_heap d propKeys a s =
     (case getDynamicProps d (deref s a) propKeys of
        Inl err \<Rightarrow> (Inl err, s)
      | Inr keys \<Rightarrow>
          let missing = filter (\<lambda>key. \<not> truthy (get (deref s a) (toPropertyKey key))) keys in
          if length missing > 0
          then (Inl (Error (''missing required properties: '' @ join (map keyToString missing))), s)
          else (Inr a, s))"

definition allowProperties_heap ::
  "deps \<Rightarrow> bool \<Rightarrow> propKey list \<Rightarrow> ref \<Rightarrow> store \<Rightarrow> (error + ref) \<times> store" where
  "allowProperties_heap d isUpdate propKeys a s =
     (case (if isUpdate then
              (case getDynamicProps d (deref s a) propKeys of
                 Inl err \<Rightarrow> Inl err
               | Inr keys \<Rightarrow>
                   let allowList = keys @ internalPropList;
                       unknownProps = filter (\<lambda>key. KString key \<notin> set allowList)
                                        (Object_keys (deref s a))
                   in if length unknownProps > 0
                      then Inl (Error (''invalid properties: '' @ join unknownProps))
                      else Inr ())
            else Inr ()) of
        Inl err \<Rightarrow> (Inl err, s)
      | Inr u \<Rightarrow> updateMixins_heap Pre a ''allowProperties'' (AllowProperties True propKeys) s)"

definition validateProperties_heap ::
  "deps \<Rightarrow> validation list \<Rightarrow> ref \<Rightarrow> store \<Rightarrow> (error + ref) \<times> store" where
  "validateProperties_heap d validations a s =
     (case filterE (invalidSpec d (deref s a)) validations of
        Inl err \<Rightarrow> (Inl err, s)
      | Inr invalid \<Rightarrow>
          if length invalid > 0
          then (Inl (Error (''invalid value for '' @ join (map v_propKey invalid))), s)
          else updateMixins_heap Post a ''validateProperties'' (ValidateProperties validations) s)"

definition updateProperties_heap ::
  "deps \<Rightarrow> bool \<Rightarrow> updater list \<Rightarrow> ref \<Rightarrow> store \<Rightarrow> (error + ref) \<times> store" where
  "updateProperties_heap d isUpdate updaters a s =
     (case updateMixins_heap Pre a ''updateProperties'' (UpdateProperties True updaters) s of
        (Inl err, s1) \<Rightarrow> (Inl err, s1)
      | (Inr mixins, s1) \<Rightarrow>
          (case updateProps d isUpdate updaters (deref s1 a) of
             Inl err \<Rightarrow> (Inl err, s1)
           | Inr ps \<Rightarrow>
               let (r, s2) = newObject (spreadProps (objects s1 mixins) ps) s1
               in (Inr r, s2)))"

fun applyMixin_heap :: "deps \<Rightarrow> mixin \<Rightarrow> ref \<Rightarrow> store \<Rightarrow> (error + ref) \<times> store" where
  "applyMixin_heap d (EncryptProperties propKeys) = encryptProperties_heap d propKeys"
| "applyMixin_heap d (FreezeProperties isUpdate propKeys) = freezeProperties_heap d isUpdate propKeys"
| "applyMixin_heap d (RequireProperties propKeys) = requireProperties_heap d propKeys"
| "applyMixin_heap d (HashPasswords propKeys) = hashPasswords_heap d propKeys"
| "applyMixin_heap d (AllowProperties isUpdate propKeys) = allowProperties_heap d isUpdate propKeys"
| "applyMixin_heap d (ValidateProperties validations) = validateProperties_heap d validations"
| "applyMixin_heap d (UpdateProperties isUpdate updaters) = updateProperties_heap d isUpdate updaters"

text \<open>Modelled from the spec: \<^verbatim>\<open>compose\<close> as above, the functions now passing the store
  along.\<close>

fun compose_heap ::
  "('a \<Rightarrow> 's \<Rightarrow> (error + 'a) \<times> 's) list \<Rightarrow> 'a \<Rightarrow> 's \<Rightarrow> (error + 'a) \<times> 's" where
  "compose_heap [] x s = (Inr x, s)"
| "compose_heap (f # fs) x s =
     (case f x s of
        (Inl err, s1) \<Rightarrow> (Inl err, s1)
      | (Inr y, s1) \<Rightarrow> compose_heap fs y s1)"

text \<open>\<^verbatim>\<open>model[PREMIXINS].values()\<close>, where the symbol is set.\<close>

definition mixinsAt :: "mixinType \<Rightarrow> ref \<Rightarrow> store \<Rightarrow> mixin list option" where
  "mixinsAt t a s = map_option (\<lambda>m. mapValues (mixinMaps s m)) (setRef t (objects s a))"

text \<open>\<^verbatim>\<open>processUpdate\<close> (lines 58-70) on the store.  The module is in strict mode, so the
  assignment of line 59 to a frozen object throws \<^verbatim>\<open>TypeError\<close>.\<close>

definition setPrevModel :: "ref \<Rightarrow> ref \<Rightarrow> store \<Rightarrow> (error + unit) \<times> store" where
  "setPrevModel model changes s =
     (if c_frozen (objects s changes) then (Inl TypeError, s)
      else (Inr (),
            s\<lparr>objects := (objects s)(changes := (objects s changes)\<lparr>c_prev := Some model\<rparr>)\<rparr>))"

definition preUpdate_heap :: "deps \<Rightarrow> ref \<Rightarrow> ref \<Rightarrow> store \<Rightarrow> (error + ref) \<times> store" where
  "preUpdate_heap d model changes s =
     (case mixinsAt Pre model s of
        Some gs \<Rightarrow> compose_heap (map (applyMixin_heap d) gs) changes s
      | None \<Rightarrow> (Inr changes, s))"

definition postUpdate_heap :: "deps \<Rightarrow> ref \<Rightarrow> ref \<Rightarrow> store \<Rightarrow> (error + ref) \<times> store" where
  "postUpdate_heap d model updated s =
     (case mixinsAt Post model s of
        Some gs \<Rightarrow> compose_heap (map (applyMixin_heap d) gs) updated s
      | None \<Rightarrow> (Inr updated, s))"

text \<open>\<^verbatim>\<open>const updated = { ...model, ...updates }\<close> (line 65).\<close>

definition mergeUpdates :: "ref \<Rightarrow> ref \<Rightarrow> store \<Rightarrow> ref \<times> store" where
  "mergeUpdates model updates s = newObject (spreadObjects (objects s model) (objects s updates)) s"

definition processUpdate_heap :: "deps \<Rightarrow> ref \<Rightarrow> ref \<Rightarrow> store \<Rightarrow> (error + ref) \<times> store" where
  "processUpdate_heap d model changes s =
     (case setPrevModel model changes s of
        (Inl err, s1) \<Rightarrow> (Inl err, s1)
      | (Inr u, s1) \<Rightarrow>
          (case preUpdate_heap d model changes s1 of
             (Inl err, s2) \<Rightarrow> (Inl err, s2)
           | (Inr updates, s2) \<Rightarrow>
               let (updated, s3) = mergeUpdates model updates s2
               in postUpdate_heap d model updated s3))"


section \<open>The exported factories\<close>

text \<open>The exported factories (lines 383-440).\<close>

definition requirePropertiesMixin :: "propKey list \<Rightarrow> mixin" where
  "requirePropertiesMixin propKeys = RequireProperties propKeys"

definition freezePropertiesMixin :: "propKey list \<Rightarrow> mixin" where
  "freezePropertiesMixin propKeys = FreezeProperties False propKeys"

definition encryptPropertiesMixin :: "propKey list \<Rightarrow> mixin" where
  "encryptPropertiesMixin propKeys = EncryptProperties propKeys"

definition hashPasswordsMixin :: "propKey list \<Rightarrow> mixin" where
  "hashPasswordsMixin propKeys = HashPasswords propKeys"

definition allowPropertiesMixin :: "propKey list \<Rightarrow> mixin" where
  "allowPropertiesMixin propKeys = AllowProperties False propKeys"

definition validatePropertiesMixin :: "validation list \<Rightarrow> mixin" where
  "validatePropertiesMixin validations = ValidateProperties validations"

definition updatePropertiesMixin :: "updater list \<Rightarrow> mixin" where
  "updatePropertiesMixin updaters = UpdateProperties False updaters"

section \<open>The order's guards and factory (\<^verbatim>\<open>src/unnamed/part_002\<close>)\<close>

definition MAXORDER :: real where
  "MAXORDER = 99999.99"

definition OrderStatus_values :: "jsval list" where
  "OrderStatus_values =
     [JStr ''PENDING'', JStr ''APPROVED'', JStr ''SHIPPING'', JStr ''COMPLETE'', JStr ''CANCELED'']"

text \<open>The arguments of \<^verbatim>\<open>requirePropertiesMixin\<close> (lines 239-246, 765-772).\<close>

definition orderRequired :: "propKey list" where
  "orderRequired =
     [Literal ''customerInfo'',
      Literal ''orderItems'',
      Literal ''creditCardNumber'',
      Literal ''shippingAddress'',
      Literal ''billingAddress'',
      Computed (RequiredForCompletion ''proofOfDelivery'')]"

text \<open>The arguments of \<^verbatim>\<open>freezePropertiesMixin\<close> (lines 247-254, 773-780).\<close>

definition orderFrozen :: "propKey list" where
  "orderFrozen =
     [Literal ''customerInfo'',
      Computed (FreezeOnApproval ''orderItems''),
      Computed (FreezeOnApproval ''creditCardNumber''),
      Computed (FreezeOnApproval ''shippingAddress''),
      Computed (FreezeOnApproval ''billingAddress''),
      Computed (FreezeOnCompletion ''orderStatus'')]"

text \<open>The argument of \<^verbatim>\<open>updatePropertiesMixin\<close> (lines 255-263, 781-784).\<close>

definition orderUpdaters :: "updater list" where
  "orderUpdaters = [\<lparr>u_propKey = ''orderItems'', u_update = RecalcTotal\<rparr>]"

text \<open>The argument of \<^verbatim>\<open>validatePropertiesMixin\<close> (lines 264-274, 785-792), over the
  \<^verbatim>\<open>statusChangeValid\<close> of the copy.\<close>

definition orderStatusValidation :: "isValidFn \<Rightarrow> validation" where
  "orderStatusValidation f =
     \<lparr>v_propKey = ''orderStatus'', v_isValid = Some f, v_values = Some OrderStatus_values,
      v_regex = None, v_typeof = None, v_maxnum = None, v_maxlen = None\<rparr>"

definition orderTotalValidation :: validation where
  "orderTotalValidation =
     \<lparr>v_propKey = ''orderTotal'', v_isValid = None, v_values = None,
      v_regex = None, v_typeof = None, v_maxnum = Some MAXORDER, v_maxlen = None\<rparr>"

definition orderValidations :: "isValidFn \<Rightarrow> validation list" where
  "orderValidations f = [orderStatusValidation f, orderTotalValidation]"

text \<open>The arguments of \<^verbatim>\<open>allowPropertiesMixin\<close> (lines 275-286, first copy only).\<close>

definition orderAllowed :: "propKey list" where
  "orderAllowed =
     [Literal ''orderItems'',
      Literal ''customerInfo'',
      Literal ''shippingAddress'',
      Literal ''billingAddress'',
      Literal ''proofOfDelivery'',
      Literal ''creditCardNumber'',
      Literal ''paymentAuthorization'',
      Literal ''signatureRequired'',
      Literal ''orderStatus'',
      Literal ''orderTotal'']"

text \<open>\<^verbatim>\<open>Order.mixins\<close> of the first copy (lines 238-287).\<close>

definition orderMixins_a :: "mixin list" where
  "orderMixins_a =
     [requirePropertiesMixin orderRequired,
      freezePropertiesMixin orderFrozen,
      updatePropertiesMixin orderUpdaters,
      validatePropertiesMixin (orderValidations StatusChangeValid_a),
      allowPropertiesMixin orderAllowed]"

text \<open>\<^verbatim>\<open>orderMixins\<close> of the second copy (lines 764-793).\<close>

definition orderMixins_b :: "mixin list" where
  "orderMixins_b =
     [requirePropertiesMixin orderRequired,
      freezePropertiesMixin orderFrozen,
      updatePropertiesMixin orderUpdaters,
      validatePropertiesMixin (orderValidations StatusChangeValid_b)]"

text \<open>The injected dependencies of the factories: the adapters that \<^verbatim>\<open>createOrder\<close> awaits
  (a rejected promise is an exception at the \<^verbatim>\<open>await\<close>) and the value \<^verbatim>\<open>uuid()\<close>
  returns.\<close>

record dependencies =
  validateAddress :: "jsval \<Rightarrow> error + jsval"
  authorizePayment :: "jsval \<Rightarrow> jsval \<Rightarrow> jsval \<Rightarrow> jsval \<Rightarrow> error + jsval"
  uuid :: jsval

text \<open>A destructured parameter with a default: \<^verbatim>\<open>signatureRequired = false\<close>.\<close>

definition withDefault :: "jsval \<Rightarrow> jsval \<Rightarrow> jsval" where
  "withDefault v dflt = (if v = JUndefined then dflt else v)"

text \<open>Both copies of the order model import \<^verbatim>\<open>checkFormat\<close> from \<^verbatim>\<open>./mixins\<close> (lines 10 and
  310).  \<^verbatim>\<open>mixins.js\<close> declares \<^verbatim>\<open>const checkFormat\<close> (lines 442-447) and does not export it,
  so the imported binding holds no function: calling it throws \<^verbatim>\<open>TypeError\<close>.\<close>

definition imported_checkFormat :: "(jsval \<Rightarrow> string \<Rightarrow> jsval) option" where
  "imported_checkFormat = None"

text \<open>A call \<^verbatim>\<open>f(a, b)\<close> of an imported binding.\<close>

definition callImported :: "('a \<Rightarrow> 'b \<Rightarrow> 'c) option \<Rightarrow> 'a \<Rightarrow> 'b \<Rightarrow> error + 'c" where
  "callImported f a b = (case f of None \<Rightarrow> Inl TypeError | Some g \<Rightarrow> Inr (g a b))"

text \<open>\<^verbatim>\<open>createOrder\<close> of the first copy (lines 189-236): \<^verbatim>\<open>checkItems(orderItems)\<close>, then
  \<^verbatim>\<open>checkFormat(creditCardNumber, 'creditCard')\<close> (line 198), then the adapters and the
  frozen object.\<close>

definition createOrder_a :: "deps \<Rightarrow> dependencies \<Rightarrow> fields \<Rightarrow> error + object" where
  "createOrder_a d dep input =
     (let customerInfo = getProp input ''customerInfo'';
          orderItems = getProp input ''orderItems'';
          shippingAddress = getProp input ''shippingAddress'';
          billingAddress = getProp input ''billingAddress'';
          creditCardNumber = getProp input ''creditCardNumber'';
          signatureRequired = withDefault (getProp input ''signatureRequired'') (JBool False)
      in case checkItems orderItems of
           Inl err \<Rightarrow> Inl err
         | Inr checked \<Rightarrow>
        (case callImported imported_checkFormat creditCardNumber ''creditCard'' of
           Inl err \<Rightarrow> Inl err
         | Inr formatCheck \<Rightarrow>
        (case validateAddress dep shippingAddress of
           Inl err \<Rightarrow> Inl err
         | Inr shipAddr \<Rightarrow>
        (case calcTotal d orderItems of
           Inl err \<Rightarrow> Inl err
         | Inr authTotal \<Rightarrow>
        (case authorizePayment dep customerInfo creditCardNumber billingAddress authTotal of
           Inl err \<Rightarrow> Inl err
         | Inr payAuth \<Rightarrow>
        (case calcTotal d orderItems of
           Inl err \<Rightarrow> Inl err
         | Inr orderTotal \<Rightarrow>
             Inr (plain
               [(''completePayment'', JFun ''completePayment''),
                (''refundPayment'', JFun ''refundPayment''),
                (''shipOrder'', JFun ''shipOrder''),
                (''trackShipment'', JFun ''trackShipment''),
                (''verifyDelivery'', JFun ''verifyDelivery''),
                (''customerInfo'', customerInfo),
                (''orderItems'', orderItems),
                (''creditCardNumber'', creditCardNumber),
                (''billingAddress'', billingAddress),
                (''signatureRequired'', signatureRequired),
                (''proofOfDelivery'', JNull),
                (''shippingAddress'', shipAddr),
                (''paymentAuthorization'', payAuth),
                (''orderTotal'', orderTotal),
                (''orderStatus'', JStr ''PENDING''),
                (''orderNo'', uuid dep)])))))))"

text \<open>\<^verbatim>\<open>createOrder\<close> of the second copy (\<^verbatim>\<open>orderFactory\<close>, lines 735-762), with the same
  call at line 745.\<close>

definition createOrder_b :: "deps \<Rightarrow> dependencies \<Rightarrow> fields \<Rightarrow> error + object" where
  "createOrder_b d dep input =
     (let customerInfo = getProp input ''customerInfo'';
          orderItems = getProp input ''orderItems'';
          shippingAddress = getProp input ''shippingAddress'';
          billingAddress = getProp input ''billingAddress'';
          creditCardNumber = getProp input ''creditCardNumber'';
          signatureRequired = withDefault (getProp input ''signatureRequired'') (JBool False)
      in case checkItems orderItems of
           Inl err \<Rightarrow> Inl err
         | Inr checked \<Rightarrow>
        (case callImported imported_checkFormat creditCardNumber ''creditCard'' of
           Inl err \<Rightarrow> Inl err
         | Inr formatCheck \<Rightarrow>
        (case calcTotal d orderItems of
           Inl err \<Rightarrow> Inl err
         | Inr orderTotal \<Rightarrow>
             Inr (plain
               [(''customerInfo'', customerInfo),
                (''orderItems'', orderItems),
                (''creditCardNumber'', creditCardNumber),
                (''billingAddress'', billingAddress),
                (''signatureRequired'', signatureRequired),
                (''shippingAddress'', shippingAddress),
                (''orderTotal'', orderTotal),
                (''orderStatus'', JStr ''PENDING''),
                (''orderNo'', uuid dep),
                (''update'', JFun ''update'')]))))"


section \<open>Vocabulary of the properties\<close>

text \<open>The \<^verbatim>\<open>mixinType\<close> a guard passes to \<^verbatim>\<open>updateMixins\<close>; \<^verbatim>\<open>requireProperties\<close> does not
  call it.\<close>

fun registersIn :: "mixin \<Rightarrow> mixinType option" where
  "registersIn (EncryptProperties ks) = Some Pre"
| "registersIn (FreezeProperties b ks) = Some Pre"
| "registersIn (RequireProperties ks) = None"
| "registersIn (HashPasswords ks) = Some Pre"
| "registersIn (AllowProperties b ks) = Some Pre"
| "registersIn (ValidateProperties vs) = Some Post"
| "registersIn (UpdateProperties b us) = Some Pre"

text \<open>The name a guard passes to \<^verbatim>\<open>updateMixins\<close>: \<^verbatim>\<open>Function.name\<close> of its constant.\<close>

fun mixinName :: "mixin \<Rightarrow> string" where
  "mixinName (EncryptProperties ks) = ''encryptProperties''"
| "mixinName (FreezeProperties b ks) = ''freezeProperties''"
| "mixinName (RequireProperties ks) = ''requireProperties''"
| "mixinName (HashPasswords ks) = ''hashPasswords''"
| "mixinName (AllowProperties b ks) = ''allowProperties''"
| "mixinName (ValidateProperties vs) = ''validateProperties''"
| "mixinName (UpdateProperties b us) = ''updateProperties''"

text \<open>The closure a guard passes to \<^verbatim>\<open>updateMixins\<close> as \<^verbatim>\<open>cb\<close>: itself, in update mode.\<close>

fun onUpdate :: "mixin \<Rightarrow> mixin" where
  "onUpdate (FreezeProperties b ks) = FreezeProperties True ks"
| "onUpdate (AllowProperties b ks) = AllowProperties True ks"
| "onUpdate (UpdateProperties b us) = UpdateProperties True us"
| "onUpdate m = m"

text \<open>The guards that only check: they return their argument, at most with a mixin set
  added.\<close>

fun checksOnly :: "mixin \<Rightarrow> bool" where
  "checksOnly (FreezeProperties b ks) = True"
| "checksOnly (RequireProperties ks) = True"
| "checksOnly (AllowProperties b ks) = True"
| "checksOnly (ValidateProperties vs) = True"
| "checksOnly m = False"

text \<open>The sum of a list of numbers as the program computes it: from 0, left to right, each
  step the rounded addition.\<close>

definition sumNumbers :: "deps \<Rightarrow> real list \<Rightarrow> real" where
  "sumNumbers d ps = foldl (addNumbers d) 0 ps"

definition preGuards :: "object \<Rightarrow> mixin list" where
  "preGuards model = (case preMixins model of Some s \<Rightarrow> mapValues s | None \<Rightarrow> [])"

definition postGuards :: "object \<Rightarrow> mixin list" where
  "postGuards model = (case postMixins model of Some s \<Rightarrow> mapValues s | None \<Rightarrow> [])"

text \<open>Concrete inputs for the examples: dependencies that leave values as they are, and
  the order of the repository's test (\<^verbatim>\<open>test/services/order-service-local.js\<close>).\<close>

definition sampleDeps :: deps where
  "sampleDeps = \<lparr>encrypt = (\<lambda>v. v), hash = (\<lambda>v. v), regexpTest = (\<lambda>e v. True),
                  toNumber = (\<lambda>v. None), fnLength = (\<lambda>f. 0),
                  addNumbers = (\<lambda>a b. a + b)\<rparr>"

definition sampleDependencies :: dependencies where
  "sampleDependencies = \<lparr>validateAddress = (\<lambda>a. Inr a),
                          authorizePayment = (\<lambda>c n b t. Inr (JStr ''authorized'')),
                          uuid = JStr ''order-1''\<rparr>"

definition sampleItems :: jsval where
  "sampleItems =
     JArr [JObj [(''itemId'', JStr ''item1''), (''price'', JNum 90.22)],
           JObj [(''itemId'', JStr ''item2''), (''price'', JNum 87.60)]]"

text \<open>The input of the test \<^verbatim>\<open>should create an order\<close> (lines 9-22).\<close>

definition sampleInput :: fields where
  "sampleInput =
     [(''customerInfo'', JStr ''user1''),
      (''orderItems'', sampleItems),
      (''billingAddress'', JStr ''9612 Park Ave S, Bloomington, MN 55408''),
      (''shippingAddress'', JStr ''9612 Park Ave S, Bloomington, MN 55408''),
      (''creditCardNumber'', JStr ''378282246310005'')]"

text \<open>The input of the test \<^verbatim>\<open>missing billingAddress\<close> (lines 61-79).\<close>

definition inputWithoutBilling :: fields where
  "inputWithoutBilling =
     [(''customerInfo'', JStr ''user1''),
      (''orderItems'', sampleItems),
      (''shippingAddress'', JStr ''9612 Park Ave S, Bloomington, MN 55408''),
      (''creditCardNumber'', JStr ''378282246310005'')]"

text \<open>The mixin sets an order carries once its guards have run on it (lemma
  \<open>orderMixins_register\<close> below): the closures in update mode, under their names, in
  the order of \<^verbatim>\<open>orderMixins\<close>.\<close>

definition orderPreMixins_a :: mixinSet where
  "orderPreMixins_a =
     [(''freezeProperties'', FreezeProperties True orderFrozen),
      (''updateProperties'', UpdateProperties True orderUpdaters),
      (''allowProperties'', AllowProperties True orderAllowed)]"

definition orderPreMixins_b :: mixinSet where
  "orderPreMixins_b =
     [(''freezeProperties'', FreezeProperties True orderFrozen),
      (''updateProperties'', UpdateProperties True orderUpdaters)]"

definition orderPostMixins :: "isValidFn \<Rightarrow> mixinSet" where
  "orderPostMixins f = [(''validateProperties'', ValidateProperties (orderValidations f))]"

text \<open>An order of the second copy with the items of the test, in a given status and with a
  given total.\<close>

definition sampleOrder :: "string \<Rightarrow> real \<Rightarrow> object" where
  "sampleOrder status t =
     Obj [(''customerInfo'', JStr ''user1''),
          (''orderItems'', sampleItems),
          (''creditCardNumber'', JStr ''378282246310005''),
          (''billingAddress'', JStr ''9612 Park Ave S, Bloomington, MN 55408''),
          (''signatureRequired'', JBool False),
          (''shippingAddress'', JStr ''9612 Park Ave S, Bloomington, MN 55408''),
          (''orderTotal'', JNum t),
          (''orderStatus'', JStr status),
          (''orderNo'', JStr ''order-1'')]
         None (Some orderPreMixins_b) (Some (orderPostMixins StatusChangeValid_b))"


text \<open>A guard of a chain throws: the guard at some position is reached, with the output
  of the guards before it, and throws \<open>e\<close> there.\<close>

definition guardThrows :: "deps \<Rightarrow> mixin list \<Rightarrow> object \<Rightarrow> error \<Rightarrow> bool" where
  "guardThrows d gs x e \<longleftrightarrow>
     (\<exists>i y. i < length gs \<and> compose (map (applyMixin d) (take i gs)) x = Inr y
            \<and> applyMixin d (gs ! i) y = Inl e)"

text \<open>A store with the order of \<open>sampleOrder\<close> at reference 0, frozen as \<^verbatim>\<open>createOrder\<close>
  leaves it, with its two \<^verbatim>\<open>Map\<close>s, and a change set at reference 1.\<close>

definition sampleStore :: "string \<Rightarrow> fields \<Rightarrow> store" where
  "sampleStore status changes =
     \<lparr>objects = (\<lambda>a. if a = 0
                      then \<lparr>c_props = props (sampleOrder status 177.82), c_prev = None,
                            c_pre = Some 0, c_post = Some 1, c_frozen = True\<rparr>
                      else \<lparr>c_props = changes, c_prev = None, c_pre = None, c_post = None,
                            c_frozen = False\<rparr>),
      mixinMaps = (\<lambda>m. if m = 0 then orderPreMixins_b
                       else if m = 1 then orderPostMixins StatusChangeValid_b else []),
      objectCount = 2,
      mapCount = 2\<rparr>"

definition guardsAt :: "mixinType \<Rightarrow> ref \<Rightarrow> store \<Rightarrow> mixin list" where
  "guardsAt t a s = (case mixinsAt t a s of Some gs \<Rightarrow> gs | None \<Rightarrow> [])"

definition guardThrows_heap :: "deps \<Rightarrow> mixin list \<Rightarrow> ref \<Rightarrow> store \<Rightarrow> error \<Rightarrow> bool" where
  "guardThrows_heap d gs x s e \<longleftrightarrow>
     (\<exists>i y s'. i < length gs
        \<and> compose_heap (map (applyMixin_heap d) (take i gs)) x s = (Inr y, s')
        \<and> fst (applyMixin_heap d (gs ! i) y s') = Inl e)"

text \<open>The store after a call keeps every object that was allocated before it; at most the
  object at \<open>w\<close> has its \<^verbatim>\<open>PREVMODEL\<close> set.\<close>

definition keepsObjects :: "ref option \<Rightarrow> store \<Rightarrow> store \<Rightarrow> bool" where
  "keepsObjects w s s' \<longleftrightarrow>
     objectCount s \<le> objectCount s'
     \<and> (\<forall>a < objectCount s. Some a \<noteq> w \<longrightarrow> objects s' a = objects s a)
     \<and> (\<forall>a < objectCount s. c_props (objects s' a) = c_props (objects s a))"

text \<open>What a guard needs to return on a change set without properties: the reduction of
  \<^verbatim>\<open>encryptProperties\<close> and \<^verbatim>\<open>hashPasswords\<close> needs a key, \<^verbatim>\<open>requireProperties\<close> must have
  none.\<close>

fun runsOnEmpty :: "mixin \<Rightarrow> bool" where
  "runsOnEmpty (EncryptProperties ks) = (ks \<noteq> [])"
| "runsOnEmpty (HashPasswords ks) = (ks \<noteq> [])"
| "runsOnEmpty (RequireProperties ks) = (ks = [])"
| "runsOnEmpty m = True"

text \<open>The pre-update mixin set of an object holds guards that register there and return on
  a change set without properties.\<close>

definition preReady :: "object \<Rightarrow> bool" where
  "preReady o1 \<longleftrightarrow> (\<forall>g\<in>set (preGuards o1). registersIn g = Some Pre \<and> runsOnEmpty g)"

text \<open>The entries of a mixin set of an object; none when the symbol is not set.\<close>

definition entries :: "mixinType \<Rightarrow> object \<Rightarrow> mixinSet" where
  "entries t o1 = (case mixinSetOf t o1 of Some s \<Rightarrow> s | None \<Rightarrow> [])"




text \<open>A model as the merged object of its own empty update: its string-keyed properties,
  with the model itself as predecessor.\<close>

definition onItself :: "object \<Rightarrow> object" where
  "onItself S = Obj (props S) (Some S) None None"

text \<open>Every spec of a validation accepts the model's own properties, the model being its
  own predecessor.\<close>

definition acceptsItself :: "deps \<Rightarrow> validation list \<Rightarrow> object \<Rightarrow> bool" where
  "acceptsItself d vs S \<longleftrightarrow> list_all (\<lambda>v. invalidSpec d (onItself S) v = Inr False) vs"

text \<open>A spec whose custom check, if it has one, is on \<^verbatim>\<open>orderStatus\<close>: the checks of the
  repository are the two copies of \<^verbatim>\<open>statusChangeValid\<close>, which compare the value with
  \<^verbatim>\<open>o[PREVMODEL].orderStatus\<close>.\<close>

definition checksStatusOnly :: "validation \<Rightarrow> bool" where
  "checksStatusOnly v \<longleftrightarrow> v_isValid v = None \<or> v_propKey v = ''orderStatus''"

text \<open>A \<^verbatim>\<open>hash\<close> that returns a digest of 32 characters, and a validation of the length of
  a password.\<close>

definition digestDeps :: deps where
  "digestDeps = sampleDeps\<lparr>hash := (\<lambda>v. JStr ''5ebe2294ecd0e0f08eab7690d2a6ee69'')\<rparr>"

definition passwordLength :: validation where
  "passwordLength = \<lparr>v_propKey = ''password'', v_isValid = None, v_values = None,
                      v_regex = None, v_typeof = None, v_maxnum = None, v_maxlen = Some 20\<rparr>"


definition hashedUser :: object where
  "hashedUser =
     Obj [(''password'', JStr ''5ebe2294ecd0e0f08eab7690d2a6ee69'')] None
         (Some [(''hashPasswords'', HashPasswords [Literal ''password''])])
         (Some [(''validateProperties'', ValidateProperties [passwordLength])])"


section \<open>Objects, spreads and mixin sets\<close>


lemma map_of_spreadFields:
  "map_of (spreadFields a b) k = (case map_of b k of Some v \<Rightarrow> Some v | None \<Rightarrow> map_of a k)"
proof -
  have m: "map_of (map (\<lambda>kv. (fst kv, case map_of b (fst kv) of Some v \<Rightarrow> v | None \<Rightarrow> snd kv)) a) k
        = (case map_of a k of None \<Rightarrow> None | Some w \<Rightarrow> Some (case map_of b k of Some v \<Rightarrow> v | None \<Rightarrow> w))"
    by (induction a) auto
  have f: "map_of (filter (\<lambda>kv. map_of a (fst kv) = None) b) k
        = (if map_of a k = None then map_of b k else None)"
    by (induction b) auto
  show ?thesis
    unfolding spreadFields_def map_of_append map_add_def m f
    by (auto split: option.splits)
qed

lemma getProp_spreadFields:
  "getProp (spreadFields a b) k = (case map_of b k of Some v \<Rightarrow> v | None \<Rightarrow> getProp a k)"
  by (simp add: getProp_def map_of_spreadFields split: option.splits)

lemma spreadFields_Nil [simp]: "spreadFields a [] = a"
  by (simp add: spreadFields_def)

lemma spreadFields_Nil_left [simp]: "spreadFields [] b = b"
  by (simp add: spreadFields_def)

lemma keys_spreadFields: "fst ` set (spreadFields a b) = fst ` set a \<union> fst ` set b"
proof -
  have "dom (map_of (spreadFields a b)) = dom (map_of a) \<union> dom (map_of b)"
    by (auto simp: dom_def map_of_spreadFields split: option.splits)
  then show ?thesis by (simp add: dom_map_of_conv_image_fst)
qed

lemma props_spread [simp]: "props (spread a b) = spreadFields (props a) (props b)"
  and prevModel_spread [simp]: "prevModel (spread a b) = orElse (prevModel b) (prevModel a)"
  and preMixins_spread [simp]: "preMixins (spread a b) = orElse (preMixins b) (preMixins a)"
  and postMixins_spread [simp]: "postMixins (spread a b) = orElse (postMixins b) (postMixins a)"
  by (simp_all add: spread_def)

lemma orElse_None [simp]: "orElse None a = a" and orElse_Some [simp]: "orElse (Some x) a = Some x"
  by (simp_all add: orElse_def)

lemma plain_sel [simp]: "props (plain ps) = ps" "prevModel (plain ps) = None"
  "preMixins (plain ps) = None" "postMixins (plain ps) = None"
  by (simp_all add: plain_def)

lemma tagged_sel [simp]: "props (tagged m c) = props c" "prevModel (tagged m c) = Some m"
  "preMixins (tagged m c) = preMixins c" "postMixins (tagged m c) = postMixins c"
  by (simp_all add: tagged_def)

lemma updateMixins_cases:
  assumes "t \<noteq> OtherType"
  shows "\<exists>o2. updateMixins t o1 n cb = Inr o2 \<and> props o2 = props o1 \<and> prevModel o2 = prevModel o1
     \<and> (\<exists>s. mixinSetOf t o2 = Some s \<and> has s n
          \<and> (\<not> has (case mixinSetOf t o1 of Some s \<Rightarrow> s | None \<Rightarrow> []) n \<longrightarrow> map_of s n = Some cb))"
  using assms
  by (cases t) (auto simp: updateMixins_def Let_def mixinSetOf_def withMixinSet_def has_def map_add_def split: option.splits)


lemma updateMixins_Inr:
  assumes "updateMixins t o1 n cb = Inr o2"
  shows "props o2 = props o1" and "prevModel o2 = prevModel o1"
    and "t = Pre \<Longrightarrow> postMixins o2 = postMixins o1"
    and "t = Post \<Longrightarrow> preMixins o2 = preMixins o1"
  using assms
  by (cases t; auto simp: updateMixins_def Let_def withMixinSet_def split: if_splits)+

lemma updateMixins_registers:
  assumes "updateMixins t o1 n cb = Inr o2"
  shows "\<exists>s. mixinSetOf t o2 = Some s \<and> has s n
          \<and> (\<not> has (case mixinSetOf t o1 of Some s' \<Rightarrow> s' | None \<Rightarrow> []) n \<longrightarrow> map_of s n = Some cb)"
proof -
  have "t \<noteq> OtherType" using assms by (auto simp: updateMixins_def)
  from updateMixins_cases[OF this, of o1 n cb] assms show ?thesis by auto
qed

lemma mixinSetOf_spread_plain [simp]:
  "mixinSetOf t (spread a (plain ps)) = mixinSetOf t a"
  by (cases t) (simp_all add: mixinSetOf_def)

section \<open>Status changes\<close>

lemma strictEq_JStr [simp]: "strictEq x (JStr s) \<longleftrightarrow> x = JStr s"
  by (auto simp: strictEq_def)

lemma strictEq_JUndefined [simp]: "strictEq x JUndefined \<longleftrightarrow> x = JUndefined"
  by (auto simp: strictEq_def)

text \<open>The second copy rejects exactly its five edges, whatever else the objects hold.\<close>

lemma statusChangeValid_b_edges:
  assumes "prevModel o1 = Some p" and "truthy (get p ''orderStatus'')"
  shows "statusChangeValid_b o1 propVal =
           (if (get p ''orderStatus'', propVal) \<in>
                 {(JStr ''APPROVED'', JStr ''PENDING''), (JStr ''SHIPPING'', JStr ''PENDING''),
                  (JStr ''SHIPPING'', JStr ''APPROVED''), (JStr ''PENDING'', JStr ''SHIPPING''),
                  (JStr ''PENDING'', JStr ''COMPLETE'')}
            then Inl (Error ''invalid status change'') else Inr True)"
  using assms
  by (auto simp: statusChangeValid_b_def statusChangeValid_def invalidStatusChanges_b_def
      invalidStatusChange_def)

text \<open>
  Claim C2, on the first copy of the order model.  The table entry meant for
  SHIPPING to APPROVED compares the proposed status with \<^verbatim>\<open>undefined\<close>, so the first
  copy accepts the change from SHIPPING to APPROVED that the comment above the entry
  (\<^verbatim>\<open>Can't change back to approved once shipped\<close>) and the second copy forbid.
\<close>

theorem statusChangeValid_a_accepts_shipping_to_approved:
  "statusChangeValid_a
     (tagged (plain [(''orderStatus'', JStr ''SHIPPING'')])
             (plain [(''orderStatus'', JStr ''APPROVED'')]))
     (JStr ''APPROVED'') = Inr True
   \<and> statusChangeValid_b
     (tagged (plain [(''orderStatus'', JStr ''SHIPPING'')])
             (plain [(''orderStatus'', JStr ''APPROVED'')]))
     (JStr ''APPROVED'') = Inl (Error ''invalid status change'')"
  by (simp add: statusChangeValid_a_def statusChangeValid_b_def statusChangeValid_def
      invalidStatusChanges_a_def invalidStatusChanges_b_def invalidStatusChange_def
      tagged_def plain_def get_def getProp_def)

section \<open>Required properties\<close>

text \<open>
  Claim C6, second half.  A change set that does not propose COMPLETE and even carries a
  proof of delivery: \<^verbatim>\<open>requiredForCompletion\<close> returns \<^verbatim>\<open>undefined\<close>, \<^verbatim>\<open>getDynamicProps\<close>
  keeps it among the keys, and \<^verbatim>\<open>requireProperties\<close> looks up the property
  \<^verbatim>\<open>"undefined"\<close>, finds none and throws, with a message that lists an empty name.
\<close>

theorem requiredForCompletion_undefined_key_is_required:
  "requireProperties sampleDeps [Computed (RequiredForCompletion ''proofOfDelivery'')]
     (plain [(''orderStatus'', JStr ''SHIPPING''), (''proofOfDelivery'', JStr ''signature'')])
   = Inl (Error ''missing required properties: '')"
  by (simp add: requireProperties_def requiredForCompletion_def plain_def get_def getProp_def)

text \<open>The first half of the claim holds: proposing COMPLETE without a truthy proof of
  delivery fails, and the message lists \<^verbatim>\<open>proofOfDelivery\<close>.\<close>

lemma requiredForCompletion_complete:
  assumes "get o1 ''orderStatus'' = JStr ''COMPLETE''" and "\<not> truthy (get o1 ''proofOfDelivery'')"
  shows "requireProperties d [Computed (RequiredForCompletion ''proofOfDelivery'')] o1
         = Inl (Error ''missing required properties: proofOfDelivery'')"
  using assms by (simp add: requireProperties_def requiredForCompletion_def)

text \<open>With the order's keys the guard throws on every object that does not propose COMPLETE
  (unless it has a truthy property named \<^verbatim>\<open>undefined\<close>), a newly built order included.\<close>

lemma order_require_throws:
  assumes "get o1 ''orderStatus'' \<noteq> JStr ''COMPLETE''" and "\<not> truthy (get o1 ''undefined'')"
  shows "isl (requireProperties d orderRequired o1)"
  using assms
  by (simp add: requireProperties_def orderRequired_def requiredForCompletion_def Let_def)

text \<open>
  Claim C7.  The order's required-properties guard on the creation input of the
  repository's test \<^verbatim>\<open>missing billingAddress\<close>: the message lists \<^verbatim>\<open>billingAddress\<close> and
  then the empty name of the \<^verbatim>\<open>undefined\<close> key, where the test expects
  \<^verbatim>\<open>missing required properties: billingAddress\<close>.
\<close>

theorem missing_billingAddress_message:
  "applyMixin sampleDeps (requirePropertiesMixin orderRequired) (plain inputWithoutBilling)
     = Inl (Error ''missing required properties: billingAddress,'')"
  by code_simp


section \<open>Validation of the order\<close>


lemma statusChangeValid_range:
  "statusChangeValid tbl o1 v = Inr True \<or> statusChangeValid tbl o1 v = Inl (Error ''invalid status change'')"
proof (cases "prevModel o1")
  case None
  then show ?thesis by (simp add: statusChangeValid_def)
next
  case (Some p)
  have "\<exists>b. some (\<lambda>i. invalidStatusChange (fst i) (snd i) o1 v) tbl = Inr b"
    by (induction tbl) (auto simp: invalidStatusChange_def Some)
  then show ?thesis by (auto simp: statusChangeValid_def)
qed

lemma callIsValid_range:
  "callIsValid f o1 v = Inr True \<or> callIsValid f o1 v = Inl (Error ''invalid status change'')"
  by (cases f) (simp_all add: statusChangeValid_a_def statusChangeValid_b_def statusChangeValid_range)

lemma validator_isValid_orderTotal:
  "validator_isValid d orderTotalValidation o1 v = Inr (greaterThan d MAXORDER v)"
  by (simp add: validator_isValid_def orderTotalValidation_def test_isValid_def test_values_def
      test_regex_def test_typeof_def test_maxnum_def test_maxlen_def MAXORDER_def)

lemma v_propKey_order [simp]:
  "v_propKey (orderStatusValidation f) = ''orderStatus''"
  "v_propKey orderTotalValidation = ''orderTotal''"
  by (simp_all add: orderStatusValidation_def orderTotalValidation_def)

lemma invalidSpec_orderTotal:
  "invalidSpec d o1 orderTotalValidation
     = Inr (truthy (get o1 ''orderTotal'') \<and> \<not> greaterThan d MAXORDER (get o1 ''orderTotal''))"
  by (simp add: invalidSpec_def validator_isValid_orderTotal Let_def)

lemma validator_isValid_orderStatus:
  "validator_isValid d (orderStatusValidation f) o1 v =
     (case callIsValid f o1 v of Inl e \<Rightarrow> Inl e | Inr ok \<Rightarrow> Inr (arrayIncludes OrderStatus_values v))"
  using callIsValid_range[of f o1 v]
  by (auto simp add: validator_isValid_def orderStatusValidation_def test_isValid_def test_values_def
      test_regex_def test_typeof_def test_maxnum_def test_maxlen_def)

lemma invalidSpec_orderStatus_range:
  "(\<exists>b. invalidSpec d o1 (orderStatusValidation f) = Inr b)
   \<or> invalidSpec d o1 (orderStatusValidation f) = Inl (Error ''invalid status change'')"
  using callIsValid_range[of f o1 "get o1 ''orderStatus''"]
  by (auto simp: invalidSpec_def Let_def validator_isValid_orderStatus)

lemma validateProperties_order:
  "validateProperties d (orderValidations f) o1 =
     (case invalidSpec d o1 (orderStatusValidation f) of
        Inl e \<Rightarrow> Inl e
      | Inr badStatus \<Rightarrow>
          if badStatus \<or> (truthy (get o1 ''orderTotal'') \<and> \<not> greaterThan d MAXORDER (get o1 ''orderTotal''))
          then Inl (Error (''invalid value for '' @
                 join ((if badStatus then [''orderStatus''] else []) @
                       (if truthy (get o1 ''orderTotal'') \<and> \<not> greaterThan d MAXORDER (get o1 ''orderTotal'')
                        then [''orderTotal''] else []))))
          else updateMixins Post o1 ''validateProperties'' (ValidateProperties (orderValidations f)))"
  by (auto simp: validateProperties_def orderValidations_def invalidSpec_orderTotal
      split: sum.splits)

text \<open>
  Claim C4, as amended.  On an object whose \<^verbatim>\<open>orderTotal\<close> is a number above 99999.99 the
  order's validation always throws: \<^verbatim>\<open>invalid status change\<close> when the status check throws
  first, otherwise a message that names \<^verbatim>\<open>orderTotal\<close>; so an update whose merged object
  has such a total returns no snapshot.  A total strictly below 99999.99 passes the
  \<^verbatim>\<open>maxnum\<close> test, and the validation then never names \<^verbatim>\<open>orderTotal\<close>.
\<close>

theorem orderTotal_ceiling:
  assumes "get o1 ''orderTotal'' = JNum t"
  shows "(MAXORDER < t \<longrightarrow>
            validateProperties d (orderValidations f) o1 \<in>
              {Inl (Error ''invalid status change''),
               Inl (Error ''invalid value for orderTotal''),
               Inl (Error ''invalid value for orderStatus,orderTotal'')})
       \<and> (MAXORDER < t \<and> postMixins model = Some [(n, ValidateProperties (orderValidations f))]
            \<and> preUpdate d model changes = Inr updates \<and> o1 = spread model updates
            \<longrightarrow> isl (processUpdate d model changes))
       \<and> (t < MAXORDER \<longrightarrow>
            validator_isValid d orderTotalValidation o1 (JNum t) = Inr True
            \<and> validateProperties d (orderValidations f) o1 \<notin>
              {Inl (Error ''invalid value for orderTotal''),
               Inl (Error ''invalid value for orderStatus,orderTotal'')})"
proof (intro conjI impI)
  assume big: "MAXORDER < t"
  then have t0: "t \<noteq> 0" by (simp add: MAXORDER_def)
  from invalidSpec_orderStatus_range[of d o1 f]
  show "validateProperties d (orderValidations f) o1 \<in>
              {Inl (Error ''invalid status change''),
               Inl (Error ''invalid value for orderTotal''),
               Inl (Error ''invalid value for orderStatus,orderTotal'')}"
    using big t0 assms by (auto simp: validateProperties_order greaterThan_def)
next
  assume h: "MAXORDER < t \<and> postMixins model = Some [(n, ValidateProperties (orderValidations f))]
            \<and> preUpdate d model changes = Inr updates \<and> o1 = spread model updates"
  then have t0: "t \<noteq> 0" by (simp add: MAXORDER_def)
  have "isl (validateProperties d (orderValidations f) o1)"
    using invalidSpec_orderStatus_range[of d o1 f] h t0 assms
    by (auto simp: validateProperties_order greaterThan_def)
  with h show "isl (processUpdate d model changes)"
    by (auto simp: processUpdate_def postUpdate_def mapValues_def split: sum.splits)
next
  assume small: "t < MAXORDER"
  show "validator_isValid d orderTotalValidation o1 (JNum t) = Inr True"
    using small by (simp add: validator_isValid_orderTotal greaterThan_def)
next
  assume small: "t < MAXORDER"
  from invalidSpec_orderStatus_range[of d o1 f]
  show "validateProperties d (orderValidations f) o1 \<notin>
              {Inl (Error ''invalid value for orderTotal''),
               Inl (Error ''invalid value for orderStatus,orderTotal'')}"
    using small assms
    by (auto simp: validateProperties_order greaterThan_def updateMixins_def Let_def split: if_splits)
qed

theorem orderTotal_ceiling_witness:
  "MAXORDER < 9000087.82
   \<and> get (sampleOrder ''PENDING'' 9000087.82) ''orderTotal'' = JNum 9000087.82
   \<and> validateProperties sampleDeps (orderValidations StatusChangeValid_b)
        (sampleOrder ''PENDING'' 9000087.82) = Inl (Error ''invalid value for orderTotal'')
   \<and> isl (processUpdate sampleDeps (sampleOrder ''PENDING'' 177.82)
             (plain [(''orderTotal'', JNum 9000087.82)]))
   \<and> 177.82 < MAXORDER
   \<and> get (sampleOrder ''PENDING'' 177.82) ''orderTotal'' = JNum 177.82
   \<and> validator_isValid sampleDeps orderTotalValidation (sampleOrder ''PENDING'' 177.82)
        (JNum 177.82) = Inr True"
proof -
  have big: "MAXORDER < 9000087.82" and small: "177.82 < MAXORDER"
    by (simp_all add: MAXORDER_def)
  have g1: "get (sampleOrder ''PENDING'' 9000087.82) ''orderTotal'' = JNum 9000087.82"
    and g2: "get (sampleOrder ''PENDING'' 177.82) ''orderTotal'' = JNum 177.82"
    by (simp_all add: sampleOrder_def get_def getProp_def)
  have v: "validateProperties sampleDeps (orderValidations StatusChangeValid_b)
        (sampleOrder ''PENDING'' 9000087.82) = Inl (Error ''invalid value for orderTotal'')"
    by code_simp
  have pre: "preUpdate sampleDeps (sampleOrder ''PENDING'' 177.82)
               (plain [(''orderTotal'', JNum 9000087.82)])
             = Inr (Obj [(''orderTotal'', JNum 9000087.82)] (Some (sampleOrder ''PENDING'' 177.82))
                        (Some orderPreMixins_b) None)"
    by code_simp
  have post: "postMixins (sampleOrder ''PENDING'' 177.82)
               = Some [(''validateProperties'', ValidateProperties (orderValidations StatusChangeValid_b))]"
    by (simp add: sampleOrder_def orderPostMixins_def)
  have g3: "get (spread (sampleOrder ''PENDING'' 177.82)
                   (Obj [(''orderTotal'', JNum 9000087.82)] (Some (sampleOrder ''PENDING'' 177.82))
                        (Some orderPreMixins_b) None)) ''orderTotal'' = JNum 9000087.82"
    by (simp add: get_def getProp_spreadFields)
  from orderTotal_ceiling[OF g3, of sampleDeps StatusChangeValid_b
        "sampleOrder ''PENDING'' 177.82" "''validateProperties''"
        "plain [(''orderTotal'', JNum 9000087.82)]"
        "Obj [(''orderTotal'', JNum 9000087.82)] (Some (sampleOrder ''PENDING'' 177.82))
             (Some orderPreMixins_b) None"]
  have p: "isl (processUpdate sampleDeps (sampleOrder ''PENDING'' 177.82)
             (plain [(''orderTotal'', JNum 9000087.82)]))"
    using big pre post by simp
  from orderTotal_ceiling[OF g2, of sampleDeps] small
  have s: "validator_isValid sampleDeps orderTotalValidation (sampleOrder ''PENDING'' 177.82)
        (JNum 177.82) = Inr True"
    by simp
  from big g1 v p small g2 s show ?thesis by simp
qed

text \<open>The claim as stated fails at the ceiling itself: the test is \<^verbatim>\<open>v > propVal\<close>, so an
  order total of exactly 99999.99 does not pass it.\<close>

theorem orderTotal_at_ceiling_rejected:
  "(99999.99 :: real) \<le> MAXORDER
   \<and> validator_isValid sampleDeps orderTotalValidation (sampleOrder ''PENDING'' 99999.99)
        (JNum 99999.99) = Inr False
   \<and> validateProperties sampleDeps (orderValidations StatusChangeValid_b)
        (sampleOrder ''PENDING'' 99999.99) = Inl (Error ''invalid value for orderTotal'')"
  by code_simp


section \<open>Guards on objects: what a successful application changes\<close>

lemma truthy_get_in_keys: "truthy (get o1 k) \<Longrightarrow> k \<in> fst ` set (props o1)"
proof (cases "map_of (props o1) k")
  case None
  assume "truthy (get o1 k)"
  with None show ?thesis by (simp add: get_def getProp_def)
next
  case (Some v)
  then show ?thesis by (metis map_of_eq_None_iff option.distinct(1))
qed

lemma keys_foldl_spread_flip:
  "fst ` set (foldl (\<lambda>p c. spreadFields c p) x xs) = fst ` set x \<union> (\<Union>c\<in>set xs. fst ` set c)"
  by (induction xs arbitrary: x) (auto simp: keys_spreadFields)

lemma keys_foldl_spread:
  "fst ` set (foldl spreadFields x xs) = fst ` set x \<union> (\<Union>c\<in>set xs. fst ` set c)"
  by (induction xs arbitrary: x) (auto simp: keys_spreadFields)

lemma transformProps_keys:
  assumes "transformProps f o1 keys = Inr ps"
  shows "fst ` set ps \<subseteq> fst ` set (props o1)"
proof -
  let ?g = "\<lambda>key. if truthy (get o1 (toPropertyKey key))
                       then [(toPropertyKey key, f (get o1 (toPropertyKey key)))] else []"
  from assms obtain x xs where m: "map ?g keys = x # xs"
    and ps: "ps = foldl (\<lambda>p c. spreadFields c p) x xs"
    by (auto simp: transformProps_def split: list.splits)
  have "\<And>c. c \<in> set (map ?g keys) \<Longrightarrow> fst ` set c \<subseteq> fst ` set (props o1)"
    by (auto dest: truthy_get_in_keys split: if_splits)
  then have "\<And>c. c \<in> set (x # xs) \<Longrightarrow> fst ` set c \<subseteq> fst ` set (props o1)"
    unfolding m .
  then show ?thesis unfolding ps keys_foldl_spread_flip by auto
qed

lemma mapE_results:
  "mapE f xs = Inr ys \<Longrightarrow> length ys = length xs \<and> (\<forall>y\<in>set ys. \<exists>x\<in>set xs. f x = Inr y)"
  by (induction xs arbitrary: ys) (auto split: sum.splits)

lemma callUpdate_keys: "callUpdate d u o1 v = Inr r \<Longrightarrow> fst ` set r \<subseteq> {''orderTotal''}"
  by (cases u) (auto simp: recalcTotal_def split: sum.splits)

lemma updateProps_keys:
  assumes "updateProps d b us o1 = Inr ps"
  shows "fst ` set ps \<subseteq> {''orderTotal''}"
proof (cases "b \<and> filter (\<lambda>u. truthy (get o1 (u_propKey u))) us \<noteq> []")
  case False
  with assms show ?thesis by (auto simp: updateProps_def Let_def split: if_splits)
next
  case True
  with assms obtain rs where
    rs: "mapE (\<lambda>u. callUpdate d (u_update u) o1 (get o1 (u_propKey u)))
           (filter (\<lambda>u. truthy (get o1 (u_propKey u))) us) = Inr rs"
    and ps: "ps = foldl spreadFields (hd rs) (tl rs)"
    by (auto simp: updateProps_def Let_def split: sum.splits)
  from mapE_results[OF rs] True obtain r rs' where c: "rs = r # rs'" by (cases rs) auto
  from mapE_results[OF rs] have "\<forall>r\<in>set rs. fst ` set r \<subseteq> {''orderTotal''}"
    by (meson callUpdate_keys)
  then have "fst ` set r \<subseteq> {''orderTotal''}" and "\<forall>x\<in>set rs'. fst ` set x \<subseteq> {''orderTotal''}"
    by (simp_all add: c)
  then show ?thesis unfolding ps c list.sel keys_foldl_spread by blast
qed

lemma updateProps_empty:
  "props o1 = [] \<Longrightarrow> updateProps d b us o1 = Inr []"
  by (simp add: updateProps_def get_def getProp_def)

lemma spread_plain_Nil [simp]: "spread a (plain []) = a"
  by (cases a) (simp add: spread_def)

text \<open>The shape of every successful guard application.\<close>

lemma applyMixin_shape:
  assumes "applyMixin d m o1 = Inr o2"
  shows "\<exists>mixins ps. o2 = spread mixins (plain ps)
           \<and> props mixins = props o1 \<and> prevModel mixins = prevModel o1
           \<and> fst ` set ps \<subseteq> fst ` set (props o1) \<union> {''orderTotal''}
           \<and> (checksOnly m \<longrightarrow> ps = [])
           \<and> (props o1 = [] \<longrightarrow> ps = [])"
proof (cases m)
  case (EncryptProperties ks)
  with assms obtain keys mixins ps where
    u: "updateMixins Pre o1 ''encryptProperties'' (EncryptProperties ks) = Inr mixins"
    and t: "transformProps (encrypt d) o1 keys = Inr ps"
    and o2: "o2 = spread mixins (plain ps)"
    by (auto simp: encryptProperties_def split: sum.splits)
  from transformProps_keys[OF t] have k: "fst ` set ps \<subseteq> fst ` set (props o1)" .
  then have "props o1 = [] \<longrightarrow> ps = []" by auto
  with k o2 updateMixins_Inr(1,2)[OF u] show ?thesis
    by (intro exI[of _ mixins] exI[of _ ps]) (auto simp: EncryptProperties)
next
  case (FreezeProperties b ks)
  with assms have u: "updateMixins Pre o1 ''freezeProperties'' (FreezeProperties True ks) = Inr o2"
    by (auto simp: freezeProperties_def split: sum.splits)
  from updateMixins_Inr(1,2)[OF u] show ?thesis
    by (intro exI[of _ o2] exI[of _ "[]"]) simp
next
  case (RequireProperties ks)
  with assms have "o2 = o1"
    by (auto simp: requireProperties_def Let_def split: sum.splits if_splits)
  then show ?thesis
    by (intro exI[of _ o2] exI[of _ "[]"]) simp
next
  case (HashPasswords ks)
  with assms obtain keys mixins ps where
    u: "updateMixins Pre o1 ''hashPasswords'' (HashPasswords ks) = Inr mixins"
    and t: "transformProps (hash d) o1 keys = Inr ps"
    and o2: "o2 = spread mixins (plain ps)"
    by (auto simp: hashPasswords_def split: sum.splits)
  from transformProps_keys[OF t] have k: "fst ` set ps \<subseteq> fst ` set (props o1)" .
  then have "props o1 = [] \<longrightarrow> ps = []" by auto
  with k o2 updateMixins_Inr(1,2)[OF u] show ?thesis
    by (intro exI[of _ mixins] exI[of _ ps]) (auto simp: HashPasswords)
next
  case (AllowProperties b ks)
  with assms have u: "updateMixins Pre o1 ''allowProperties'' (AllowProperties True ks) = Inr o2"
    by (auto simp: allowProperties_def split: sum.splits)
  from updateMixins_Inr(1,2)[OF u] show ?thesis
    by (intro exI[of _ o2] exI[of _ "[]"]) simp
next
  case (ValidateProperties vs)
  with assms have u: "updateMixins Post o1 ''validateProperties'' (ValidateProperties vs) = Inr o2"
    by (auto simp: validateProperties_def split: sum.splits if_splits)
  from updateMixins_Inr(1,2)[OF u] show ?thesis
    by (intro exI[of _ o2] exI[of _ "[]"]) simp
next
  case (UpdateProperties b us)
  with assms obtain mixins ps where
    u: "updateMixins Pre o1 ''updateProperties'' (UpdateProperties True us) = Inr mixins"
    and t: "updateProps d b us o1 = Inr ps"
    and o2: "o2 = spread mixins (plain ps)"
    by (auto simp: updateProperties_def split: sum.splits)
  from updateProps_keys[OF t] have k: "fst ` set ps \<subseteq> {''orderTotal''}" .
  from t updateProps_empty[of o1 d b us] have "props o1 = [] \<longrightarrow> ps = []" by auto
  with k o2 updateMixins_Inr(1,2)[OF u] show ?thesis
    by (intro exI[of _ mixins] exI[of _ ps]) (auto simp: UpdateProperties)
qed

lemma applyMixin_prevModel:
  assumes "applyMixin d m o1 = Inr o2"
  shows "prevModel o2 = prevModel o1"
  using applyMixin_shape[OF assms] by auto

lemma checksOnly_props:
  assumes "applyMixin d m o1 = Inr o2" and "checksOnly m"
  shows "props o2 = props o1"
  using applyMixin_shape[OF assms(1)] assms(2) by auto


lemma applyMixin_empty:
  assumes "applyMixin d m o1 = Inr o2" and "props o1 = []"
  shows "props o2 = []"
  using applyMixin_shape[OF assms(1)] assms(2) by auto

lemma compose_append:
  "compose (fs @ gs) x = (case compose fs x of Inl e \<Rightarrow> Inl e | Inr y \<Rightarrow> compose gs y)"
  by (induction fs arbitrary: x) (auto split: sum.splits)

lemma compose_invariant:
  assumes "compose (map (applyMixin d) ms) o1 = Inr o2"
    and "P o1"
    and "\<And>m a b. m \<in> set ms \<Longrightarrow> applyMixin d m a = Inr b \<Longrightarrow> P a \<Longrightarrow> P b"
  shows "P o2"
  using assms
proof (induction ms arbitrary: o1)
  case Nil
  then show ?case by simp
next
  case (Cons m ms)
  from Cons.prems(1) obtain y where y: "applyMixin d m o1 = Inr y"
    and r: "compose (map (applyMixin d) ms) y = Inr o2"
    by (auto split: sum.splits)
  have py: "P y" using Cons.prems(3)[OF _ y Cons.prems(2)] by simp
  show ?case
    by (rule Cons.IH[OF r py]) (use Cons.prems(3) in auto)
qed


lemma compose_empty:
  assumes "compose (map (applyMixin d) ms) o1 = Inr o2" and "props o1 = []"
  shows "props o2 = []"
proof (rule compose_invariant[OF assms(1), where P = "\<lambda>x. props x = []"])
  show "props o1 = []" by (rule assms(2))
next
  fix m a b
  assume "applyMixin d m a = Inr b" and "props a = []"
  then show "props b = []" by (rule applyMixin_empty)
qed

lemma compose_prevModel:
  assumes "compose (map (applyMixin d) ms) o1 = Inr o2"
  shows "prevModel o2 = prevModel o1"
proof (rule compose_invariant[OF assms, where P = "\<lambda>x. prevModel x = prevModel o1"])
  show "prevModel o1 = prevModel o1" by simp
next
  fix m a b
  assume "applyMixin d m a = Inr b" and "prevModel a = prevModel o1"
  then show "prevModel b = prevModel o1" by (simp add: applyMixin_prevModel)
qed

lemma compose_checksOnly:
  assumes "compose (map (applyMixin d) ms) o1 = Inr o2" and "\<forall>m\<in>set ms. checksOnly m"
  shows "props o2 = props o1"
proof (rule compose_invariant[OF assms(1), where P = "\<lambda>x. props x = props o1"])
  show "props o1 = props o1" by simp
next
  fix m a b
  assume "m \<in> set ms" and "applyMixin d m a = Inr b" and "props a = props o1"
  with assms(2) show "props b = props o1" by (simp add: checksOnly_props)
qed

section \<open>Frozen properties of the order\<close>


lemma strictEq_JStr_left [simp]: "strictEq (JStr s) x \<longleftrightarrow> x = JStr s"
  by (auto simp: strictEq_def)






section \<open>The update pipeline over its guards\<close>

lemma preUpdate_preGuards:
  "preUpdate d model changes = compose (map (applyMixin d) (preGuards model)) (tagged model changes)"
  by (simp add: preUpdate_def preGuards_def split: option.splits)

lemma postUpdate_postGuards:
  "postUpdate d model updated = compose (map (applyMixin d) (postGuards model)) updated"
  by (simp add: postUpdate_def postGuards_def split: option.splits)

lemma processUpdate_Inr:
  assumes "processUpdate d model changes = Inr S'"
  obtains updates where
    "compose (map (applyMixin d) (preGuards model)) (tagged model changes) = Inr updates"
    "compose (map (applyMixin d) (postGuards model)) (spread model updates) = Inr S'"
  using assms
  by (auto simp: processUpdate_def preUpdate_preGuards postUpdate_postGuards split: sum.splits)




section \<open>The derived order total\<close>

lemma jsTypeof_number: "jsTypeof v = ''number'' \<longleftrightarrow> (\<exists>r. v = JNum r)"
  by (cases v) auto

lemma every_Inr_True: "every f xs = Inr True \<Longrightarrow> \<forall>x\<in>set xs. f x = Inr True"
  by (induction xs) (auto split: sum.splits if_splits)

lemma checkItems_Inr:
  assumes "checkItems I = Inr items"
  shows "truthy I" and "items \<noteq> []" and "every itemValid items = Inr True"
    and "items = (case I of JArr xs \<Rightarrow> xs | _ \<Rightarrow> [I])"
  using assms
  by (auto simp: checkItems_def Let_def split: if_splits sum.splits)

text \<open>After \<^verbatim>\<open>checkItems\<close> every item has a truthy \<^verbatim>\<open>itemId\<close> and a number as \<^verbatim>\<open>price\<close>, which
  is the number \<open>price\<close> reads.\<close>

lemma checkItems_prices:
  assumes "checkItems I = Inr items" and "i \<in> set items"
  shows "member i ''price'' = Inr (JNum (price i))"
proof -
  from every_Inr_True[OF checkItems_Inr(3)[OF assms(1)]] assms(2)
  have "itemValid i = Inr True" by blast
  then obtain r where "member i ''price'' = Inr (JNum r)"
    by (auto simp: itemValid_def jsTypeof_number split: sum.splits if_splits)
  then show ?thesis by (simp add: price_def)
qed

lemma calcTotal_sum:
  assumes "checkItems I = Inr items"
  shows "calcTotal d I = Inr (JNum (sumNumbers d (map price items)))"
  using assms by (simp add: calcTotal_def sumNumbers_def foldl_map)

text \<open>Where addition is exact, \<open>sumNumbers\<close> is the sum.\<close>

lemma sumNumbers_exact:
  assumes "addNumbers d = (\<lambda>a b. a + b)"
  shows "sumNumbers d ps = sum_list ps"
proof -
  have "foldl (\<lambda>a b. a + b) z ps = z + sum_list ps" for z :: real
    by (induction ps arbitrary: z) simp_all
  from this[of 0] assms show ?thesis by (simp add: sumNumbers_def)
qed

lemma updateProps_orderItems:
  assumes "truthy (get o1 ''orderItems'')"
  shows "updateProps d True orderUpdaters o1 =
           (case calcTotal d (get o1 ''orderItems'') of
              Inl e \<Rightarrow> Inl e
            | Inr t \<Rightarrow> Inr [(''orderTotal'', t)])"
  using assms
  by (simp add: updateProps_def orderUpdaters_def recalcTotal_def split: sum.splits)

lemma map_of_spreadFields_single: "map_of (spreadFields a [(k, v)]) k = Some v"
  by (simp add: map_of_spreadFields)

text \<open>The update half of claim C3.  For an \<^verbatim>\<open>orderItems\<close> value that \<^verbatim>\<open>checkItems\<close> accepts,
  with \<open>items\<close> the array it yields: an update whose change set carries these
  \<^verbatim>\<open>orderItems\<close>, on a model whose pre-update guards are the order's updater among checks
  (as in both copies), returns a snapshot whose \<^verbatim>\<open>orderTotal\<close> is the sum of the items'
  prices as the program adds them.\<close>

lemma orderItems_update_recomputes_orderTotal:
  assumes "checkItems I = Inr items"
    and "get changes ''orderItems'' = I"
    and g: "preGuards model = s1 @ UpdateProperties True orderUpdaters # s2"
    and c: "\<forall>m\<in>set (s1 @ s2 @ postGuards model). checksOnly m"
    and "processUpdate d model changes = Inr S'"
  shows "get S' ''orderTotal'' = JNum (sumNumbers d (map price items))"
proof -
  note ct = calcTotal_sum[OF assms(1), of d]
  from assms(5) obtain updates where
    pre: "compose (map (applyMixin d) (preGuards model)) (tagged model changes) = Inr updates"
    and post: "compose (map (applyMixin d) (postGuards model)) (spread model updates) = Inr S'"
    by (auto elim: processUpdate_Inr)
  from pre g obtain a b where
    a: "compose (map (applyMixin d) s1) (tagged model changes) = Inr a"
    and b: "updateProperties d True orderUpdaters a = Inr b"
    and u: "compose (map (applyMixin d) s2) b = Inr updates"
    by (auto simp: compose_append split: sum.splits)
  from compose_checksOnly[OF a] c have pa: "props a = props changes" by simp
  then have ga: "get a ''orderItems'' = I" using assms(2) by (simp add: get_def)
  from checkItems_Inr(1)[OF assms(1)] ga have "truthy (get a ''orderItems'')" by simp
  from updateProps_orderItems[OF this, of d] ga ct
  have "updateProps d True orderUpdaters a
          = Inr [(''orderTotal'', JNum (sumNumbers d (map price items)))]"
    by simp
  with b obtain mixins where
    "updateMixins Pre a ''updateProperties'' (UpdateProperties True orderUpdaters) = Inr mixins"
    and "b = spread mixins (plain [(''orderTotal'', JNum (sumNumbers d (map price items)))])"
    by (auto simp: updateProperties_def split: sum.splits)
  then have "map_of (props b) ''orderTotal'' = Some (JNum (sumNumbers d (map price items)))"
    by (simp add: map_of_spreadFields_single)
  moreover from compose_checksOnly[OF u] c have "props updates = props b" by simp
  ultimately have "get (spread model updates) ''orderTotal''
                     = JNum (sumNumbers d (map price items))"
    by (simp add: get_def getProp_spreadFields)
  moreover from compose_checksOnly[OF post] c have "props S' = props (spread model updates)"
    by simp
  ultimately show ?thesis by (simp add: get_def)
qed

text \<open>Neither copy of \<^verbatim>\<open>createOrder\<close> returns an order: once \<^verbatim>\<open>checkItems\<close> has accepted the
  items, the call of the imported \<^verbatim>\<open>checkFormat\<close> throws.\<close>

lemma createOrder_throws:
  "createOrder_a d dep input
     = (case checkItems (getProp input ''orderItems'') of
          Inl err \<Rightarrow> Inl err | Inr checked \<Rightarrow> Inl TypeError)"
  "createOrder_b d dep input
     = (case checkItems (getProp input ''orderItems'') of
          Inl err \<Rightarrow> Inl err | Inr checked \<Rightarrow> Inl TypeError)"
  by (simp_all add: createOrder_a_def createOrder_b_def callImported_def
      imported_checkFormat_def split: sum.splits)

text \<open>
  Claim C3, the creation half.  On the input of the repository's test
  \<^verbatim>\<open>should create an order\<close>, whose items \<^verbatim>\<open>checkItems\<close> accepts, \<^verbatim>\<open>createOrder\<close> of either
  copy throws \<^verbatim>\<open>TypeError\<close> and produces no snapshot, so no \<^verbatim>\<open>orderTotal\<close> either: the
  \<^verbatim>\<open>checkFormat\<close> it calls is not exported by \<^verbatim>\<open>mixins.js\<close>.
\<close>

theorem createOrder_throws_TypeError:
  "checkItems (getProp sampleInput ''orderItems'')
     = Inr [JObj [(''itemId'', JStr ''item1''), (''price'', JNum 90.22)],
            JObj [(''itemId'', JStr ''item2''), (''price'', JNum 87.60)]]
   \<and> createOrder_a sampleDeps sampleDependencies sampleInput = Inl TypeError
   \<and> createOrder_b sampleDeps sampleDependencies sampleInput = Inl TypeError"
  by code_simp

section \<open>Failure of an update\<close>

lemma guardThrows_Nil [simp]: "\<not> guardThrows d [] x e"
  by (simp add: guardThrows_def)

lemma guardThrows_Cons:
  "guardThrows d (g # gs) x e \<longleftrightarrow>
     (case applyMixin d g x of Inl e' \<Rightarrow> e' = e | Inr y \<Rightarrow> guardThrows d gs y e)"
proof (cases "applyMixin d g x")
  case (Inl e')
  have "guardThrows d (g # gs) x e \<longleftrightarrow> e' = e"
  proof
    assume "guardThrows d (g # gs) x e"
    then obtain i y where i: "i < length (g # gs)"
      and c: "compose (map (applyMixin d) (take i (g # gs))) x = Inr y"
      and t: "applyMixin d ((g # gs) ! i) y = Inl e"
      unfolding guardThrows_def by blast
    show "e' = e"
    proof (cases i)
      case 0
      with c t Inl show ?thesis by simp
    next
      case (Suc j)
      with c Inl show ?thesis by simp
    qed
  next
    assume "e' = e"
    with Inl have "0 < length (g # gs) \<and> compose (map (applyMixin d) (take 0 (g # gs))) x = Inr x
            \<and> applyMixin d ((g # gs) ! 0) x = Inl e"
      by simp
    then show "guardThrows d (g # gs) x e" unfolding guardThrows_def by blast
  qed
  with Inl show ?thesis by simp
next
  case (Inr y0)
  have "guardThrows d (g # gs) x e \<longleftrightarrow> guardThrows d gs y0 e"
  proof
    assume "guardThrows d (g # gs) x e"
    then obtain i y where i: "i < length (g # gs)"
      and c: "compose (map (applyMixin d) (take i (g # gs))) x = Inr y"
      and t: "applyMixin d ((g # gs) ! i) y = Inl e"
      unfolding guardThrows_def by blast
    show "guardThrows d gs y0 e"
    proof (cases i)
      case 0
      with c t Inr show ?thesis by simp
    next
      case (Suc j)
      with i c t Inr have "j < length gs \<and> compose (map (applyMixin d) (take j gs)) y0 = Inr y
            \<and> applyMixin d (gs ! j) y = Inl e"
        by simp
      then show ?thesis unfolding guardThrows_def by blast
    qed
  next
    assume "guardThrows d gs y0 e"
    then obtain j y where "j < length gs"
      and "compose (map (applyMixin d) (take j gs)) y0 = Inr y"
      and "applyMixin d (gs ! j) y = Inl e"
      unfolding guardThrows_def by blast
    with Inr have "Suc j < length (g # gs)
            \<and> compose (map (applyMixin d) (take (Suc j) (g # gs))) x = Inr y
            \<and> applyMixin d ((g # gs) ! Suc j) y = Inl e"
      by simp
    then show "guardThrows d (g # gs) x e" unfolding guardThrows_def by blast
  qed
  with Inr show ?thesis by simp
qed

lemma compose_Inl_iff:
  "compose (map (applyMixin d) gs) x = Inl e \<longleftrightarrow> guardThrows d gs x e"
  by (induction gs arbitrary: x) (auto simp: guardThrows_Cons split: sum.splits)

text \<open>An exception of a guard that is reached is the outcome of \<^verbatim>\<open>processUpdate\<close>.\<close>

lemma processUpdate_throws_from_guards:
  assumes "guardThrows d (preGuards model) (tagged model changes) e
           \<or> (\<exists>updates. preUpdate d model changes = Inr updates
                 \<and> guardThrows d (postGuards model) (spread model updates) e)"
  shows "processUpdate d model changes = Inl e"
  using assms
proof
  assume "guardThrows d (preGuards model) (tagged model changes) e"
  then have "preUpdate d model changes = Inl e"
    by (simp add: preUpdate_preGuards compose_Inl_iff)
  then show ?thesis by (simp add: processUpdate_def)
next
  assume "\<exists>updates. preUpdate d model changes = Inr updates
               \<and> guardThrows d (postGuards model) (spread model updates) e"
  then obtain updates where u: "preUpdate d model changes = Inr updates"
    and "guardThrows d (postGuards model) (spread model updates) e"
    by blast
  then have "postUpdate d model (spread model updates) = Inl e"
    by (simp add: postUpdate_postGuards compose_Inl_iff)
  with u show ?thesis by (simp add: processUpdate_def)
qed

text \<open>Conversely, an exception of \<^verbatim>\<open>processUpdate\<close> is always the exception of one of
  the guards.\<close>

lemma processUpdate_throws_only_from_guards:
  assumes "processUpdate d model changes = Inl e"
  shows "guardThrows d (preGuards model) (tagged model changes) e
           \<or> (\<exists>updates. preUpdate d model changes = Inr updates
                 \<and> guardThrows d (postGuards model) (spread model updates) e)"
  using assms
  by (auto simp: processUpdate_def preUpdate_preGuards postUpdate_postGuards compose_Inl_iff
      split: sum.splits)


section \<open>Failure of an update, on the store\<close>

lemma keepsObjects_refl [simp]: "keepsObjects w s s"
  by (simp add: keepsObjects_def)

lemma keepsObjects_trans:
  "keepsObjects w s s1 \<Longrightarrow> keepsObjects w s1 s2 \<Longrightarrow> keepsObjects w s s2"
  by (auto simp: keepsObjects_def)

lemma keepsObjects_newObject:
  "newObject c s = (r, s') \<Longrightarrow> keepsObjects w s s'"
  by (auto simp: newObject_def keepsObjects_def)

lemma updateMixins_heap_keeps:
  "updateMixins_heap t a name cb s = (r, s') \<Longrightarrow> keepsObjects w s s'"
  by (auto simp: updateMixins_heap_def keepsObjects_def newMap_def newObject_def Let_def
      split: if_splits option.splits prod.splits)

lemma transformProperties_heap_keeps:
  assumes "transformProperties_heap name cb f d ks a s = (r, s')"
  shows "keepsObjects w s s'"
proof (cases "getDynamicProps d (deref s a) ks")
  case (Inl e)
  with assms show ?thesis by (simp add: transformProperties_heap_def)
next
  case (Inr keys)
  obtain r1 s1 where u: "updateMixins_heap Pre a name cb s = (r1, s1)" by (cases "updateMixins_heap Pre a name cb s")
  note k1 = updateMixins_heap_keeps[OF u, of w]
  show ?thesis
  proof (cases r1)
    case (Inl e)
    with assms Inr u k1 show ?thesis by (simp add: transformProperties_heap_def)
  next
    case m: (Inr mixins)
    show ?thesis
    proof (cases "transformProps f (deref s1 a) keys")
      case (Inl e)
      with assms Inr u k1 m show ?thesis by (simp add: transformProperties_heap_def)
    next
      case p: (Inr ps)
      obtain r2 s2 where n: "newObject (spreadProps (objects s1 mixins) ps) s1 = (r2, s2)"
        by (cases "newObject (spreadProps (objects s1 mixins) ps) s1")
      with assms Inr u m p have "s' = s2" by (simp add: transformProperties_heap_def)
      with keepsObjects_trans[OF k1 keepsObjects_newObject[OF n]] show ?thesis by simp
    qed
  qed
qed

lemma applyMixin_heap_keeps:
  assumes "applyMixin_heap d m a s = (r, s')"
  shows "keepsObjects w s s'"
proof (cases m)
  case (EncryptProperties ks)
  with assms transformProperties_heap_keeps show ?thesis
    by (simp add: encryptProperties_heap_def)
next
  case (HashPasswords ks)
  with assms transformProperties_heap_keeps show ?thesis
    by (simp add: hashPasswords_heap_def)
next
  case (FreezeProperties b ks)
  with assms updateMixins_heap_keeps[of Pre a _ _ s r s' w] show ?thesis
    by (auto simp: freezeProperties_heap_def split: sum.splits if_splits)
next
  case (AllowProperties b ks)
  with assms updateMixins_heap_keeps[of Pre a _ _ s r s' w] show ?thesis
    by (auto simp: allowProperties_heap_def split: sum.splits if_splits)
next
  case (RequireProperties ks)
  with assms show ?thesis
    by (auto simp: requireProperties_heap_def Let_def split: sum.splits if_splits)
next
  case (ValidateProperties vs)
  with assms updateMixins_heap_keeps[of Post a _ _ s r s' w] show ?thesis
    by (auto simp: validateProperties_heap_def split: sum.splits if_splits)
next
  case (UpdateProperties b us)
  obtain r1 s1 where u: "updateMixins_heap Pre a ''updateProperties'' (UpdateProperties True us) s = (r1, s1)"
    by (cases "updateMixins_heap Pre a ''updateProperties'' (UpdateProperties True us) s")
  note k1 = updateMixins_heap_keeps[OF u, of w]
  show ?thesis
  proof (cases r1)
    case (Inl e)
    with assms UpdateProperties u k1 show ?thesis by (simp add: updateProperties_heap_def)
  next
    case m: (Inr mixins)
    show ?thesis
    proof (cases "updateProps d b us (deref s1 a)")
      case (Inl e)
      with assms UpdateProperties u k1 m show ?thesis by (simp add: updateProperties_heap_def)
    next
      case p: (Inr ps)
      obtain r2 s2 where n: "newObject (spreadProps (objects s1 mixins) ps) s1 = (r2, s2)"
        by (cases "newObject (spreadProps (objects s1 mixins) ps) s1")
      with assms UpdateProperties u m p have "s' = s2" by (simp add: updateProperties_heap_def)
      with keepsObjects_trans[OF k1 keepsObjects_newObject[OF n]] show ?thesis by simp
    qed
  qed
qed

lemma compose_heap_keeps:
  "compose_heap (map (applyMixin_heap d) gs) a s = (r, s') \<Longrightarrow> keepsObjects w s s'"
proof (induction gs arbitrary: a s)
  case Nil
  then show ?case by simp
next
  case (Cons g gs)
  obtain r1 s1 where g: "applyMixin_heap d g a s = (r1, s1)" by (cases "applyMixin_heap d g a s")
  note k1 = applyMixin_heap_keeps[OF g, of w]
  show ?case
  proof (cases r1)
    case (Inl e)
    with Cons.prems g k1 show ?thesis by simp
  next
    case (Inr y)
    with Cons.prems g have "compose_heap (map (applyMixin_heap d) gs) y s1 = (r, s')" by simp
    from keepsObjects_trans[OF k1 Cons.IH[OF this]] show ?thesis .
  qed
qed

lemma setPrevModel_keeps:
  "setPrevModel model changes s = (r, s') \<Longrightarrow> keepsObjects (Some changes) s s'"
  by (auto simp: setPrevModel_def keepsObjects_def split: if_splits)

lemma processUpdate_heap_keeps:
  assumes "processUpdate_heap d model changes s = (r, s')"
  shows "keepsObjects (Some changes) s s'"
proof -
  obtain r1 s1 where t: "setPrevModel model changes s = (r1, s1)"
    by (cases "setPrevModel model changes s")
  note k1 = setPrevModel_keeps[OF t]
  show ?thesis
  proof (cases r1)
    case (Inl e)
    with assms t k1 show ?thesis by (simp add: processUpdate_heap_def)
  next
    case u: (Inr u)
    obtain r2 s2 where p: "preUpdate_heap d model changes s1 = (r2, s2)"
      by (cases "preUpdate_heap d model changes s1")
    then have k2: "keepsObjects (Some changes) s1 s2"
      by (auto simp: preUpdate_heap_def dest: compose_heap_keeps split: option.splits)
    show ?thesis
    proof (cases r2)
      case (Inl e)
      with assms t u p keepsObjects_trans[OF k1 k2] show ?thesis
        by (simp add: processUpdate_heap_def)
    next
      case (Inr updates)
      obtain updated s3 where n: "mergeUpdates model updates s2 = (updated, s3)"
        by (cases "mergeUpdates model updates s2")
      with assms t u p Inr have q: "postUpdate_heap d model updated s3 = (r, s')"
        by (simp add: processUpdate_heap_def)
      then have k4: "keepsObjects (Some changes) s3 s'"
        by (auto simp: postUpdate_heap_def dest: compose_heap_keeps split: option.splits)
      note n = n[unfolded mergeUpdates_def]
      from keepsObjects_trans[OF keepsObjects_trans[OF k1 k2]
          keepsObjects_trans[OF keepsObjects_newObject[OF n] k4]]
      show ?thesis .
    qed
  qed
qed

lemma guardThrows_heap_Nil [simp]: "\<not> guardThrows_heap d [] x s e"
  by (simp add: guardThrows_heap_def)

lemma guardThrows_heap_Cons:
  "guardThrows_heap d (g # gs) x s e \<longleftrightarrow>
     (case applyMixin_heap d g x s of
        (Inl e', s1) \<Rightarrow> e' = e
      | (Inr y, s1) \<Rightarrow> guardThrows_heap d gs y s1 e)"
proof -
  obtain r1 s1 where g: "applyMixin_heap d g x s = (r1, s1)" by (cases "applyMixin_heap d g x s")
  show ?thesis
  proof (cases r1)
    case (Inl e')
    have "guardThrows_heap d (g # gs) x s e \<longleftrightarrow> e' = e"
    proof
      assume "guardThrows_heap d (g # gs) x s e"
      then obtain i y s' where i: "i < length (g # gs)"
        and c: "compose_heap (map (applyMixin_heap d) (take i (g # gs))) x s = (Inr y, s')"
        and t: "fst (applyMixin_heap d ((g # gs) ! i) y s') = Inl e"
        unfolding guardThrows_heap_def by blast
      show "e' = e"
      proof (cases i)
        case 0
        with c t g Inl show ?thesis by simp
      next
        case (Suc j)
        with c g Inl show ?thesis by simp
      qed
    next
      assume "e' = e"
      with g Inl have "0 < length (g # gs)
          \<and> compose_heap (map (applyMixin_heap d) (take 0 (g # gs))) x s = (Inr x, s)
          \<and> fst (applyMixin_heap d ((g # gs) ! 0) x s) = Inl e"
        by simp
      then show "guardThrows_heap d (g # gs) x s e" unfolding guardThrows_heap_def by blast
    qed
    with g Inl show ?thesis by simp
  next
    case (Inr y0)
    have "guardThrows_heap d (g # gs) x s e \<longleftrightarrow> guardThrows_heap d gs y0 s1 e"
    proof
      assume "guardThrows_heap d (g # gs) x s e"
      then obtain i y s' where i: "i < length (g # gs)"
        and c: "compose_heap (map (applyMixin_heap d) (take i (g # gs))) x s = (Inr y, s')"
        and t: "fst (applyMixin_heap d ((g # gs) ! i) y s') = Inl e"
        unfolding guardThrows_heap_def by blast
      show "guardThrows_heap d gs y0 s1 e"
      proof (cases i)
        case 0
        with c t g Inr show ?thesis by simp
      next
        case (Suc j)
        with i c t g Inr have "j < length gs
            \<and> compose_heap (map (applyMixin_heap d) (take j gs)) y0 s1 = (Inr y, s')
            \<and> fst (applyMixin_heap d (gs ! j) y s') = Inl e"
          by simp
        then show ?thesis unfolding guardThrows_heap_def by blast
      qed
    next
      assume "guardThrows_heap d gs y0 s1 e"
      then obtain j y s' where "j < length gs"
        and "compose_heap (map (applyMixin_heap d) (take j gs)) y0 s1 = (Inr y, s')"
        and "fst (applyMixin_heap d (gs ! j) y s') = Inl e"
        unfolding guardThrows_heap_def by blast
      with g Inr have "Suc j < length (g # gs)
          \<and> compose_heap (map (applyMixin_heap d) (take (Suc j) (g # gs))) x s = (Inr y, s')
          \<and> fst (applyMixin_heap d ((g # gs) ! Suc j) y s') = Inl e"
        by simp
      then show "guardThrows_heap d (g # gs) x s e" unfolding guardThrows_heap_def by blast
    qed
    with g Inr show ?thesis by simp
  qed
qed

lemma compose_heap_Inl_iff:
  "fst (compose_heap (map (applyMixin_heap d) gs) x s) = Inl e \<longleftrightarrow> guardThrows_heap d gs x s e"
proof (induction gs arbitrary: x s)
  case Nil
  show ?case by simp
next
  case (Cons g gs)
  obtain r1 s1 where g: "applyMixin_heap d g x s = (r1, s1)" by (cases "applyMixin_heap d g x s")
  show ?case
  proof (cases r1)
    case (Inl e')
    with g show ?thesis by (simp add: guardThrows_heap_Cons)
  next
    case (Inr y)
    with g Cons.IH[of y s1] show ?thesis by (simp add: guardThrows_heap_Cons)
  qed
qed

lemma preUpdate_heap_guardsAt:
  "preUpdate_heap d model changes s
     = compose_heap (map (applyMixin_heap d) (guardsAt Pre model s)) changes s"
  by (simp add: preUpdate_heap_def guardsAt_def split: option.splits)

lemma postUpdate_heap_guardsAt:
  "postUpdate_heap d model updated s
     = compose_heap (map (applyMixin_heap d) (guardsAt Post model s)) updated s"
  by (simp add: postUpdate_heap_def guardsAt_def split: option.splits)

text \<open>
  Claim C1.  \<^verbatim>\<open>processUpdate\<close> on the store, for a model that is allocated.  If the
  assignment of line 59 goes through and then a guard of the model's pre-update set throws
  when it is reached, or the pre-update guards return and a guard of the post-update set
  throws when it is reached on the merged object, then \<^verbatim>\<open>processUpdate\<close> throws that very
  exception and returns no snapshot.  Whatever the outcome, the string-keyed properties of
  the model are in the store as they were, and when the change set is another object than
  the model, so is the whole model object (its symbol-keyed references and its frozen flag
  included).
\<close>

theorem processUpdate_heap_atomic:
  assumes "model < objectCount s"
  shows "(setPrevModel model changes s = (Inr (), s1)
          \<and> (guardThrows_heap d (guardsAt Pre model s1) changes s1 e
               \<or> (\<exists>updates s2.
                     preUpdate_heap d model changes s1 = (Inr updates, s2)
                     \<and> guardThrows_heap d
                          (guardsAt Post model (snd (mergeUpdates model updates s2)))
                          (fst (mergeUpdates model updates s2))
                          (snd (mergeUpdates model updates s2)) e))
          \<longrightarrow> fst (processUpdate_heap d model changes s) = Inl e)
       \<and> c_props (objects (snd (processUpdate_heap d model changes s)) model)
           = c_props (objects s model)
       \<and> (model \<noteq> changes \<longrightarrow>
            objects (snd (processUpdate_heap d model changes s)) model = objects s model)"
proof (intro conjI impI)
  assume h: "setPrevModel model changes s = (Inr (), s1)
          \<and> (guardThrows_heap d (guardsAt Pre model s1) changes s1 e
               \<or> (\<exists>updates s2.
                     preUpdate_heap d model changes s1 = (Inr updates, s2)
                     \<and> guardThrows_heap d
                          (guardsAt Post model (snd (mergeUpdates model updates s2)))
                          (fst (mergeUpdates model updates s2))
                          (snd (mergeUpdates model updates s2)) e))"
  then have t: "setPrevModel model changes s = (Inr (), s1)" by simp
  from h consider
    (pre) "guardThrows_heap d (guardsAt Pre model s1) changes s1 e"
    | (post) updates s2 where "preUpdate_heap d model changes s1 = (Inr updates, s2)"
      and "guardThrows_heap d
                          (guardsAt Post model (snd (mergeUpdates model updates s2)))
                          (fst (mergeUpdates model updates s2))
                          (snd (mergeUpdates model updates s2)) e"
    by blast
  then show "fst (processUpdate_heap d model changes s) = Inl e"
  proof cases
    case pre
    then have "fst (preUpdate_heap d model changes s1) = Inl e"
      by (simp add: preUpdate_heap_guardsAt compose_heap_Inl_iff)
    with t show ?thesis
      by (cases "preUpdate_heap d model changes s1") (simp add: processUpdate_heap_def)
  next
    case post
    obtain updated s3 where m: "mergeUpdates model updates s2 = (updated, s3)"
      by (cases "mergeUpdates model updates s2")
    with post(2) have "fst (postUpdate_heap d model updated s3) = Inl e"
      by (simp add: postUpdate_heap_guardsAt compose_heap_Inl_iff)
    with t post(1) m show ?thesis by (simp add: processUpdate_heap_def)
  qed
next
  obtain r s' where p: "processUpdate_heap d model changes s = (r, s')"
    by (cases "processUpdate_heap d model changes s")
  note k = processUpdate_heap_keeps[OF p]
  from k assms show "c_props (objects (snd (processUpdate_heap d model changes s)) model)
           = c_props (objects s model)"
    by (simp add: p keepsObjects_def)
  {
    assume "model \<noteq> changes"
    with k assms show "objects (snd (processUpdate_heap d model changes s)) model = objects s model"
      by (simp add: p keepsObjects_def)
  }
qed

theorem processUpdate_heap_atomic_witness:
  "(0::nat) < objectCount (sampleStore ''APPROVED'' [(''shippingAddress'', JNull)])
   \<and> fst (setPrevModel 0 1 (sampleStore ''APPROVED'' [(''shippingAddress'', JNull)])) = Inr ()
   \<and> guardThrows_heap sampleDeps
        (guardsAt Pre 0 (snd (setPrevModel 0 1 (sampleStore ''APPROVED'' [(''shippingAddress'', JNull)]))))
        1 (snd (setPrevModel 0 1 (sampleStore ''APPROVED'' [(''shippingAddress'', JNull)])))
        (Error ''cannot update readonly properties: shippingAddress'')
   \<and> fst (processUpdate_heap sampleDeps 0 1 (sampleStore ''APPROVED'' [(''shippingAddress'', JNull)]))
        = Inl (Error ''cannot update readonly properties: shippingAddress'')
   \<and> objects (snd (processUpdate_heap sampleDeps 0 1
                      (sampleStore ''APPROVED'' [(''shippingAddress'', JNull)]))) 0
        = objects (sampleStore ''APPROVED'' [(''shippingAddress'', JNull)]) 0
   \<and> c_props (objects (snd (processUpdate_heap sampleDeps 0 0
                      (sampleStore ''APPROVED'' [(''shippingAddress'', JNull)]))) 0)
        = c_props (objects (sampleStore ''APPROVED'' [(''shippingAddress'', JNull)]) 0)
   \<and> fst (setPrevModel 0 1 (sampleStore ''PENDING'' [(''orderStatus'', JStr ''COMPLETE'')])) = Inr ()
   \<and> \<not> isl (fst (preUpdate_heap sampleDeps 0 1
                 (snd (setPrevModel 0 1 (sampleStore ''PENDING'' [(''orderStatus'', JStr ''COMPLETE'')])))))
   \<and> fst (processUpdate_heap sampleDeps 0 1 (sampleStore ''PENDING'' [(''orderStatus'', JStr ''COMPLETE'')]))
        = Inl (Error ''invalid status change'')"
proof -
  let ?s = "sampleStore ''APPROVED'' [(''shippingAddress'', JNull)]"
  let ?e = "Error ''cannot update readonly properties: shippingAddress''"
  let ?s1 = "snd (setPrevModel 0 1 ?s)"
  let ?t = "sampleStore ''PENDING'' [(''orderStatus'', JStr ''COMPLETE'')]"
  let ?t1 = "snd (setPrevModel 0 1 ?t)"
  let ?u = "projr (fst (preUpdate_heap sampleDeps 0 1 ?t1))"
  let ?t2 = "snd (preUpdate_heap sampleDeps 0 1 ?t1)"
  have n: "(0::nat) < objectCount ?s" "(0::nat) < objectCount ?t" "(0::nat) \<noteq> 1"
    by (simp_all add: sampleStore_def)
  have p: "fst (setPrevModel 0 1 ?s) = Inr ()" by code_simp
  then have p': "setPrevModel 0 1 ?s = (Inr (), ?s1)" by (simp add: prod_eq_iff)
  have "fst (compose_heap (map (applyMixin_heap sampleDeps) (guardsAt Pre 0 ?s1)) 1 ?s1) = Inl ?e"
    by code_simp
  then have g: "guardThrows_heap sampleDeps (guardsAt Pre 0 ?s1) 1 ?s1 ?e"
    by (simp add: compose_heap_Inl_iff)
  have q: "fst (setPrevModel 0 1 ?t) = Inr ()" by code_simp
  then have q': "setPrevModel 0 1 ?t = (Inr (), ?t1)" by (simp add: prod_eq_iff)
  have r: "\<not> isl (fst (preUpdate_heap sampleDeps 0 1 ?t1))" by code_simp
  then have r': "preUpdate_heap sampleDeps 0 1 ?t1 = (Inr ?u, ?t2)" by (simp add: prod_eq_iff)
  have "fst (compose_heap (map (applyMixin_heap sampleDeps)
               (guardsAt Post 0 (snd (mergeUpdates 0 ?u ?t2))))
               (fst (mergeUpdates 0 ?u ?t2)) (snd (mergeUpdates 0 ?u ?t2)))
          = Inl (Error ''invalid status change'')"
    by code_simp
  then have h: "guardThrows_heap sampleDeps (guardsAt Post 0 (snd (mergeUpdates 0 ?u ?t2)))
               (fst (mergeUpdates 0 ?u ?t2)) (snd (mergeUpdates 0 ?u ?t2))
               (Error ''invalid status change'')"
    by (simp add: compose_heap_Inl_iff)
  from processUpdate_heap_atomic[OF n(1), of 1 ?s1 sampleDeps ?e] p' g n(3)
  have a: "fst (processUpdate_heap sampleDeps 0 1 ?s) = Inl ?e"
    and b: "objects (snd (processUpdate_heap sampleDeps 0 1 ?s)) 0 = objects ?s 0"
    by blast+
  from processUpdate_heap_atomic[OF n(1), of 0 ?s1 sampleDeps ?e]
  have c: "c_props (objects (snd (processUpdate_heap sampleDeps 0 0 ?s)) 0) = c_props (objects ?s 0)"
    by blast
  from processUpdate_heap_atomic[OF n(2), of 1 ?t1 sampleDeps "Error ''invalid status change''"]
    q' r' h
  have d: "fst (processUpdate_heap sampleDeps 0 1 ?t) = Inl (Error ''invalid status change'')"
    by blast
  from n(1) p g a b c q r d show ?thesis by blast
qed


section \<open>The empty update\<close>

lemma getDynamicProps_length:
  "getDynamicProps d o1 ks = Inr keys \<Longrightarrow> length keys = length ks"
  by (induction ks arbitrary: keys) (auto split: sum.splits)

lemma callKeyFn_empty:
  assumes "props o1 = []" and "prevModel o1 = Some p"
  shows "\<exists>k. callKeyFn d f o1 = Inr k"
  using assms
  by (cases f) (auto simp: freezeOnApproval_def freezeOnCompletion_def requiredForCompletion_def
      checkFormat_def get_def getProp_def)

lemma getDynamicProps_empty:
  assumes "props o1 = []" and "prevModel o1 = Some p"
  shows "\<exists>keys. getDynamicProps d o1 ks = Inr keys"
proof (induction ks)
  case Nil
  show ?case by simp
next
  case (Cons k ks)
  then obtain keys where r: "getDynamicProps d o1 ks = Inr keys" by blast
  show ?case
  proof (cases k)
    case (Literal s)
    with r show ?thesis by simp
  next
    case (Computed f)
    from callKeyFn_empty[OF assms, of d f] obtain k' where "callKeyFn d f o1 = Inr k'" by blast
    with r Computed show ?thesis by simp
  qed
qed

lemma updateMixins_Pre_total: "\<exists>o2. updateMixins Pre o1 n cb = Inr o2"
  by (simp add: updateMixins_def Let_def)

lemma transformProps_total:
  "keys \<noteq> [] \<Longrightarrow> \<exists>ps. transformProps f o1 keys = Inr ps"
  by (cases keys) (simp_all add: transformProps_def)

text \<open>A pre-update guard that returned once returns on the empty change set.\<close>

lemma applyMixin_runsOnEmpty:
  assumes "applyMixin d m o1 = Inr o2" and "registersIn m = Some Pre"
  shows "runsOnEmpty (onUpdate m)"
proof (cases m)
  case (EncryptProperties ks)
  with assms obtain keys ps where k: "getDynamicProps d o1 ks = Inr keys"
    and t: "transformProps (encrypt d) o1 keys = Inr ps"
    by (auto simp: encryptProperties_def split: sum.splits)
  from t have "keys \<noteq> []" by (auto simp: transformProps_def)
  with getDynamicProps_length[OF k] show ?thesis by (auto simp: EncryptProperties)
next
  case (HashPasswords ks)
  with assms obtain keys ps where k: "getDynamicProps d o1 ks = Inr keys"
    and t: "transformProps (hash d) o1 keys = Inr ps"
    by (auto simp: hashPasswords_def split: sum.splits)
  from t have "keys \<noteq> []" by (auto simp: transformProps_def)
  with getDynamicProps_length[OF k] show ?thesis by (auto simp: HashPasswords)
qed (use assms in auto)

lemma runsOnEmpty_applyMixin:
  assumes "runsOnEmpty m" and "registersIn m = Some Pre"
    and "props o1 = []" and "prevModel o1 = Some p"
  shows "\<exists>o2. applyMixin d m o1 = Inr o2"
proof (cases m)
  case (EncryptProperties ks)
  from getDynamicProps_empty[OF assms(3,4), of d ks] obtain keys where
    k: "getDynamicProps d o1 ks = Inr keys" by blast
  from getDynamicProps_length[OF k] assms(1) have "keys \<noteq> []" by (auto simp: EncryptProperties)
  from transformProps_total[OF this, of "encrypt d" o1] obtain ps where
    "transformProps (encrypt d) o1 keys = Inr ps" by blast
  with k updateMixins_Pre_total[of o1 "''encryptProperties''" "EncryptProperties ks"]
  show ?thesis by (auto simp: EncryptProperties encryptProperties_def)
next
  case (HashPasswords ks)
  from getDynamicProps_empty[OF assms(3,4), of d ks] obtain keys where
    k: "getDynamicProps d o1 ks = Inr keys" by blast
  from getDynamicProps_length[OF k] assms(1) have "keys \<noteq> []" by (auto simp: HashPasswords)
  from transformProps_total[OF this, of "hash d" o1] obtain ps where
    "transformProps (hash d) o1 keys = Inr ps" by blast
  with k updateMixins_Pre_total[of o1 "''hashPasswords''" "HashPasswords ks"]
  show ?thesis by (auto simp: HashPasswords hashPasswords_def)
next
  case (FreezeProperties b ks)
  from getDynamicProps_empty[OF assms(3,4), of d ks] obtain keys where
    k: "getDynamicProps d o1 ks = Inr keys" by blast
  with assms(3) updateMixins_Pre_total[of o1 "''freezeProperties''" "FreezeProperties True ks"]
  show ?thesis by (auto simp: FreezeProperties freezeProperties_def Object_keys_def)
next
  case (AllowProperties b ks)
  from getDynamicProps_empty[OF assms(3,4), of d ks] obtain keys where
    k: "getDynamicProps d o1 ks = Inr keys" by blast
  with assms(3) updateMixins_Pre_total[of o1 "''allowProperties''" "AllowProperties True ks"]
  show ?thesis by (auto simp: AllowProperties allowProperties_def Object_keys_def)
next
  case (UpdateProperties b us)
  with updateProps_empty[OF assms(3), of d b us]
    updateMixins_Pre_total[of o1 "''updateProperties''" "UpdateProperties True us"]
  show ?thesis by (auto simp: updateProperties_def)
qed (use assms in auto)


lemma applyMixin_registers_Pre:
  assumes "applyMixin d m a = Inr b" and "registersIn m = Some Pre"
  shows "\<exists>mixins ps. updateMixins Pre a (mixinName m) (onUpdate m) = Inr mixins
           \<and> b = spread mixins (plain ps)"
proof (cases m)
  case (EncryptProperties ks)
  with assms(1) show ?thesis by (auto simp: encryptProperties_def split: sum.splits)
next
  case (FreezeProperties x ks)
  with assms(1) have "updateMixins Pre a ''freezeProperties'' (FreezeProperties True ks) = Inr b"
    by (auto simp: freezeProperties_def split: sum.splits)
  then show ?thesis
    by (intro exI[of _ b] exI[of _ "[]"]) (simp add: FreezeProperties)
next
  case (HashPasswords ks)
  with assms(1) show ?thesis by (auto simp: hashPasswords_def split: sum.splits)
next
  case (AllowProperties x ks)
  with assms(1) have "updateMixins Pre a ''allowProperties'' (AllowProperties True ks) = Inr b"
    by (auto simp: allowProperties_def split: sum.splits)
  then show ?thesis
    by (intro exI[of _ b] exI[of _ "[]"]) (simp add: AllowProperties)
next
  case (UpdateProperties x us)
  with assms(1) show ?thesis by (auto simp: updateProperties_def split: sum.splits)
qed (use assms(2) in auto)

lemma updateMixins_Pre_sets:
  assumes "updateMixins Pre a n cb = Inr b"
  shows "postMixins b = postMixins a" and "preMixins b \<noteq> None"
    and "set (preGuards b) \<subseteq> insert cb (set (preGuards a))"
  using assms
  by (auto simp: updateMixins_def Let_def withMixinSet_def mixinSetOf_def has_def preGuards_def
      mapValues_def split: if_splits option.splits)

lemma applyMixin_Pre_sets:
  assumes "applyMixin d m a = Inr b" and "registersIn m = Some Pre"
  shows "postMixins b = postMixins a" and "preMixins b \<noteq> None"
    and "set (preGuards b) \<subseteq> insert (onUpdate m) (set (preGuards a))"
proof -
  from applyMixin_registers_Pre[OF assms] obtain mixins ps where
    u: "updateMixins Pre a (mixinName m) (onUpdate m) = Inr mixins"
    and b: "b = spread mixins (plain ps)"
    by blast
  have pg: "preGuards b = preGuards mixins" by (simp add: b preGuards_def)
  from updateMixins_Pre_sets[OF u] show "postMixins b = postMixins a" and "preMixins b \<noteq> None"
    and "set (preGuards b) \<subseteq> insert (onUpdate m) (set (preGuards a))"
    unfolding pg by (simp_all add: b)
qed

lemma registersIn_onUpdate [simp]: "registersIn (onUpdate m) = registersIn m"
  by (cases m) simp_all

lemma pre_phase_sets:
  assumes "compose (map (applyMixin d) gs) a = Inr b"
    and "\<forall>g\<in>set gs. registersIn g = Some Pre"
    and "preReady a"
  shows "preReady b \<and> postMixins b = postMixins a \<and> (gs \<noteq> [] \<longrightarrow> preMixins b \<noteq> None)"
  using assms
proof (induction gs arbitrary: a)
  case Nil
  then show ?case by simp
next
  case (Cons g gs)
  from Cons.prems(1) obtain y where y: "applyMixin d g a = Inr y"
    and r: "compose (map (applyMixin d) gs) y = Inr b"
    by (auto split: sum.splits)
  from Cons.prems(2) have g: "registersIn g = Some Pre" by simp
  from applyMixin_runsOnEmpty[OF y g] have "runsOnEmpty (onUpdate g)" .
  with applyMixin_Pre_sets(3)[OF y g] Cons.prems(3) g have ry: "preReady y"
    unfolding preReady_def by auto
  from Cons.IH[OF r _ ry] Cons.prems(2)
  have ih: "preReady b \<and> postMixins b = postMixins y \<and> (gs \<noteq> [] \<longrightarrow> preMixins b \<noteq> None)"
    by simp
  have "preMixins b \<noteq> None"
  proof (cases gs)
    case Nil
    with r applyMixin_Pre_sets(2)[OF y g] show ?thesis by simp
  next
    case (Cons h hs)
    with ih show ?thesis by simp
  qed
  with ih applyMixin_Pre_sets(1)[OF y g] show ?case by simp
qed

lemma compose_on_empty:
  assumes "\<forall>g\<in>set gs. registersIn g = Some Pre \<and> runsOnEmpty g"
    and "props a = []" and "prevModel a = Some p"
  shows "\<exists>b. compose (map (applyMixin d) gs) a = Inr b \<and> props b = [] \<and> prevModel b = Some p
            \<and> postMixins b = postMixins a"
  using assms
proof (induction gs arbitrary: a)
  case Nil
  then show ?case by simp
next
  case (Cons g gs)
  from Cons.prems(1) have g: "registersIn g = Some Pre" and e: "runsOnEmpty g" by simp_all
  from runsOnEmpty_applyMixin[OF e g Cons.prems(2,3), of d] obtain y where
    y: "applyMixin d g a = Inr y" by blast
  from applyMixin_empty[OF y Cons.prems(2)] have py: "props y = []" .
  from applyMixin_prevModel[OF y] Cons.prems(3) have vy: "prevModel y = Some p" by simp
  from Cons.IH[OF _ py vy] Cons.prems(1) obtain b where
    "compose (map (applyMixin d) gs) y = Inr b" "props b = []" "prevModel b = Some p"
    "postMixins b = postMixins y"
    by auto
  with y applyMixin_Pre_sets(1)[OF y g] show ?case by simp
qed

lemma callIsValid_same_status:
  assumes "prevModel o1 = Some p" and "get p ''orderStatus'' = v"
  shows "callIsValid f o1 v = Inr True"
  using assms
  by (cases f)
     (auto simp: statusChangeValid_a_def statusChangeValid_b_def statusChangeValid_def
       invalidStatusChanges_a_def invalidStatusChanges_b_def invalidStatusChange_def)

lemma empty_update_props:
  assumes "\<forall>m\<in>set (postGuards S). checksOnly m"
    and "processUpdate d S (plain []) = Inr S'"
  shows "props S' = props S"
proof -
  from assms(2) obtain updates where
    pre: "compose (map (applyMixin d) (preGuards S)) (tagged S (plain [])) = Inr updates"
    and post: "compose (map (applyMixin d) (postGuards S)) (spread S updates) = Inr S'"
    by (rule processUpdate_Inr)
  from compose_empty[OF pre] have "props updates = []" by simp
  then have "props (spread S updates) = props S" by simp
  with compose_checksOnly[OF post assms(1)] show ?thesis by simp
qed

lemma empty_update_no_mixins:
  assumes "preMixins S = None" and "postMixins S = None"
  shows "processUpdate d S (plain []) = Inr (Obj (props S) (Some S) None None)"
  using assms
  by (simp add: processUpdate_def preUpdate_def postUpdate_def spread_def tagged_def plain_def)

lemma callIsValid_cong:
  assumes "prevModel o2 = prevModel o1"
  shows "callIsValid f o2 pv = callIsValid f o1 pv"
proof (cases f)
  case StatusChangeValid_a
  show ?thesis
    unfolding StatusChangeValid_a callIsValid.simps statusChangeValid_a_def
      statusChangeValid_def invalidStatusChange_def assms
    by (rule refl)
next
  case StatusChangeValid_b
  show ?thesis
    unfolding StatusChangeValid_b callIsValid.simps statusChangeValid_b_def
      statusChangeValid_def invalidStatusChange_def assms
    by (rule refl)
qed

lemma validator_isValid_cong:
  assumes "prevModel o2 = prevModel o1"
  shows "validator_isValid d v o2 pv = validator_isValid d v o1 pv"
proof -
  have "test_isValid v o2 pv = test_isValid v o1 pv"
    by (simp add: test_isValid_def callIsValid_cong[OF assms] split: option.splits)
  then show ?thesis
    by (simp add: validator_isValid_def test_values_def test_regex_def
        test_typeof_def test_maxnum_def test_maxlen_def cong: if_cong sum.case_cong)
qed

lemma invalidSpec_cong:
  assumes "props o2 = props o1" and "prevModel o2 = prevModel o1"
  shows "invalidSpec d o2 v = invalidSpec d o1 v"
  using assms(1) validator_isValid_cong[OF assms(2)]
  by (simp add: invalidSpec_def get_def Let_def cong: if_cong)

lemma validator_isValid_again:
  assumes "validator_isValid d v o1 pv = Inr True" and "test_isValid v o2 pv = Inr True"
  shows "validator_isValid d v o2 pv = Inr True"
  using assms
  by (simp add: validator_isValid_def test_values_def test_regex_def
      test_typeof_def test_maxnum_def test_maxlen_def split: sum.splits if_splits)

lemma invalidSpec_again:
  assumes "invalidSpec d o1 v = Inr False"
    and "get o2 (v_propKey v) = get o1 (v_propKey v)"
    and "test_isValid v o2 (get o1 (v_propKey v)) = Inr True"
  shows "invalidSpec d o2 v = Inr False"
proof (cases "truthy (get o1 (v_propKey v))")
  case False
  with assms(2) show ?thesis by (simp add: invalidSpec_def)
next
  case True
  with assms(1) have "validator_isValid d v o1 (get o1 (v_propKey v)) = Inr True"
    by (auto simp: invalidSpec_def Let_def split: sum.splits)
  from validator_isValid_again[OF this assms(3)] True assms(2)
  show ?thesis by (simp add: invalidSpec_def)
qed

lemma test_isValid_same_status:
  assumes "checksStatusOnly v" and "prevModel o2 = Some p"
    and "get p ''orderStatus'' = get p (v_propKey v)"
  shows "test_isValid v o2 (get p (v_propKey v)) = Inr True"
proof (cases "v_isValid v")
  case None
  then show ?thesis by (simp add: test_isValid_def)
next
  case (Some f)
  with assms(1) have k: "v_propKey v = ''orderStatus''" by (simp add: checksStatusOnly_def)
  from callIsValid_same_status[OF assms(2), of "get p ''orderStatus''" f]
  show ?thesis by (simp add: test_isValid_def Some k)
qed

lemma filterE_Nil_iff:
  "filterE f xs = Inr [] \<longleftrightarrow> (\<forall>x\<in>set xs. f x = Inr False)"
  by (induction xs) (auto split: sum.splits if_splits)

lemma updateMixins_Post_total: "\<exists>o2. updateMixins Post o1 n cb = Inr o2"
  by (simp add: updateMixins_def Let_def)

lemma validateProperties_returns_iff:
  "(\<exists>o2. validateProperties d vs o1 = Inr o2) \<longleftrightarrow> (\<forall>v\<in>set vs. invalidSpec d o1 v = Inr False)"
proof
  assume "\<exists>o2. validateProperties d vs o1 = Inr o2"
  then have "filterE (invalidSpec d o1) vs = Inr []"
    by (auto simp: validateProperties_def split: sum.splits if_splits)
  then show "\<forall>v\<in>set vs. invalidSpec d o1 v = Inr False" by (simp add: filterE_Nil_iff)
next
  assume "\<forall>v\<in>set vs. invalidSpec d o1 v = Inr False"
  then have "filterE (invalidSpec d o1) vs = Inr []" by (simp add: filterE_Nil_iff)
  with updateMixins_Post_total[of o1 "''validateProperties''" "ValidateProperties vs"]
  show "\<exists>o2. validateProperties d vs o1 = Inr o2"
    by (auto simp: validateProperties_def)
qed

lemma postGuards_single [simp]:
  "postMixins o1 = Some [(n, g)] \<Longrightarrow> postGuards o1 = [g]"
  by (simp add: postGuards_def mapValues_def)

lemma postGuards_None [simp]: "postMixins o1 = None \<Longrightarrow> postGuards o1 = []"
  by (simp add: postGuards_def)

text \<open>The pre-update phase of the empty update of a model whose pre-update guards are
  ready.\<close>

lemma empty_update_pre:
  assumes "preReady S"
  shows "\<exists>u. preUpdate d S (plain []) = Inr u \<and> props u = []
           \<and> prevModel u = Some S \<and> postMixins u = None"
proof -
  have "\<exists>b. compose (map (applyMixin d) (preGuards S)) (tagged S (plain [])) = Inr b
          \<and> props b = [] \<and> prevModel b = Some S \<and> postMixins b = postMixins (tagged S (plain []))"
    by (rule compose_on_empty) (use assms in \<open>simp_all add: preReady_def\<close>)
  then obtain u where
    c: "compose (map (applyMixin d) (preGuards S)) (tagged S (plain [])) = Inr u"
    and e: "props u = []" and v: "prevModel u = Some S" and p: "postMixins u = None"
    by auto
  show ?thesis
    by (intro exI[of _ u]) (simp add: preUpdate_preGuards c e v p)
qed

lemma empty_update_unvalidated:
  assumes "preReady S" and "postMixins S = None"
  shows "\<exists>S'. processUpdate d S (plain []) = Inr S'"
proof -
  from empty_update_pre[OF assms(1), of d] obtain u where
    "preUpdate d S (plain []) = Inr u" by blast
  with assms(2) show ?thesis by (simp add: processUpdate_def postUpdate_def)
qed

lemma empty_update_iff:
  assumes "preReady S" and "postMixins S = Some [(n, ValidateProperties vs)]"
  shows "(\<exists>S'. processUpdate d S (plain []) = Inr S') \<longleftrightarrow> acceptsItself d vs S"
proof -
  from empty_update_pre[OF assms(1), of d] obtain u where
    u: "preUpdate d S (plain []) = Inr u" and p: "props u = []"
    and v: "prevModel u = Some S"
    by blast
  have "processUpdate d S (plain []) = validateProperties d vs (spread S u)"
    using u assms(2) by (simp add: processUpdate_def postUpdate_postGuards split: sum.splits)
  moreover have "invalidSpec d (spread S u) x = invalidSpec d (onItself S) x" for x
    by (rule invalidSpec_cong) (simp_all add: p v onItself_def)
  ultimately show ?thesis
    by (simp add: validateProperties_returns_iff acceptsItself_def list_all_iff)
qed

lemma updateMixins_Post_again:
  "postMixins o1 = Some [(n, g)] \<Longrightarrow> updateMixins Post o1 n cb = Inr o1"
  by (simp add: updateMixins_def mixinSetOf_def has_def)

lemma empty_update_after_any_update:
  assumes reg: "\<forall>g\<in>set (preGuards M). registersIn g = Some Pre"
    and pm: "postMixins M = None
             \<or> postMixins M = Some [(''validateProperties'', ValidateProperties vs)]
                \<and> list_all checksStatusOnly vs"
    and upd: "processUpdate d M (plain ps) = Inr S"
  shows "\<exists>S'. processUpdate d S (plain []) = Inr S' \<and> props S' = props S"
proof -
  from upd obtain updates where
    pre: "compose (map (applyMixin d) (preGuards M)) (tagged M (plain ps)) = Inr updates"
    and post: "compose (map (applyMixin d) (postGuards M)) (spread M updates) = Inr S"
    by (rule processUpdate_Inr)
  have r0: "preReady (tagged M (plain ps))" by (simp add: preReady_def preGuards_def)
  from pre_phase_sets[OF pre reg r0]
  have ru: "preReady updates" and pu: "postMixins updates = None"
    and nu: "preGuards M \<noteq> [] \<longrightarrow> preMixins updates \<noteq> None"
    by simp_all
  let ?merged = "spread M updates"
  have rm: "preReady ?merged"
  proof (cases "preGuards M = []")
    case True
    with pre have "updates = tagged M (plain ps)" by simp
    then have "preGuards ?merged = preGuards M" by (simp add: preGuards_def)
    with True show ?thesis by (simp add: preReady_def)
  next
    case False
    with nu obtain s where "preMixins updates = Some s" by auto
    then have "preGuards ?merged = preGuards updates" by (simp add: preGuards_def)
    with ru show ?thesis by (simp add: preReady_def)
  qed
  have pmm: "postMixins ?merged = postMixins M" by (simp add: pu)
  from pm show ?thesis
  proof
    assume n: "postMixins M = None"
    with post have S: "S = ?merged" by simp
    from empty_update_unvalidated[of S d] rm pmm n S obtain S' where
      r: "processUpdate d S (plain []) = Inr S'" by auto
    from n S pmm have "\<forall>m\<in>set (postGuards S). checksOnly m" by simp
    from empty_update_props[OF this r] r show ?thesis by blast
  next
    assume "postMixins M = Some [(''validateProperties'', ValidateProperties vs)]
                \<and> list_all checksStatusOnly vs"
    then have s: "postMixins M = Some [(''validateProperties'', ValidateProperties vs)]"
      and c: "\<forall>v\<in>set vs. checksStatusOnly v"
      by (simp_all add: list_all_iff)
    from post s have v1: "validateProperties d vs ?merged = Inr S"
      by (simp split: sum.splits)
    then have acc: "\<forall>v\<in>set vs. invalidSpec d ?merged v = Inr False"
      using validateProperties_returns_iff[of d vs ?merged] by blast
    from v1 have "updateMixins Post ?merged ''validateProperties'' (ValidateProperties vs) = Inr S"
      by (auto simp: validateProperties_def split: sum.splits if_splits)
    with updateMixins_Post_again[of ?merged "''validateProperties''" "ValidateProperties vs"]
      pmm s
    have S: "S = ?merged" by simp
    have pS: "postMixins S = Some [(''validateProperties'', ValidateProperties vs)]"
      using S pmm s by simp
    have rS: "preReady S" using rm S by simp
    have "invalidSpec d (onItself S) v = Inr False" if "v \<in> set vs" for v
    proof (rule invalidSpec_again[where ?o1.0 = S])
      from acc that S show "invalidSpec d S v = Inr False" by simp
      show "get (onItself S) (v_propKey v) = get S (v_propKey v)"
        by (simp add: onItself_def get_def)
      from c that have cv: "checksStatusOnly v" by simp
      show "test_isValid v (onItself S) (get S (v_propKey v)) = Inr True"
      proof (cases "v_isValid v")
        case None
        then show ?thesis by (simp add: test_isValid_def)
      next
        case (Some f)
        with cv have k: "v_propKey v = ''orderStatus''" by (simp add: checksStatusOnly_def)
        have "prevModel (onItself S) = Some S" by (simp add: onItself_def)
        from callIsValid_same_status[OF this, of "get S ''orderStatus''" f]
        show ?thesis by (simp add: test_isValid_def Some k)
      qed
    qed
    then have "acceptsItself d vs S" by (simp add: acceptsItself_def list_all_iff)
    with empty_update_iff[OF rS pS, of d] obtain S' where
      r: "processUpdate d S (plain []) = Inr S'" by blast
    from pS have "\<forall>m\<in>set (postGuards S). checksOnly m" by simp
    from empty_update_props[OF this r] r show ?thesis by blast
  qed
qed

text \<open>
  Claim C9, as amended.  With the change set \<^verbatim>\<open>{}\<close>: (1) whenever the post-update guards
  of a model only check, as the registered \<^verbatim>\<open>validateProperties\<close> does, a snapshot that
  \<^verbatim>\<open>processUpdate\<close> returns has exactly the model's string-keyed properties; (2) a model
  whose pre-update guards are ready and that has no post-update set gets a snapshot; (3) a
  model whose pre-update guards are ready and whose post-update set is one registered
  validation gets a snapshot exactly when every spec of that validation accepts the
  model's own properties, the model being its own predecessor; (4) a snapshot that
  \<^verbatim>\<open>processUpdate\<close> returned for a plain change set, from a model whose pre-update guards
  register themselves and whose post-update set is absent or the registered validation
  with custom checks on \<^verbatim>\<open>orderStatus\<close> only, is accepted again by the empty update, with
  the same properties.
\<close>

theorem empty_update:
  "((\<forall>m\<in>set (postGuards S). checksOnly m) \<and> processUpdate d S (plain []) = Inr S'
      \<longrightarrow> props S' = props S)
   \<and> (preReady S \<and> postMixins S = None
      \<longrightarrow> (\<exists>S''. processUpdate d S (plain []) = Inr S''))
   \<and> (preReady S \<and> postMixins S = Some [(n, ValidateProperties vs)]
      \<longrightarrow> ((\<exists>S''. processUpdate d S (plain []) = Inr S'') \<longleftrightarrow> acceptsItself d vs S))
   \<and> ((\<forall>g\<in>set (preGuards M). registersIn g = Some Pre)
        \<and> (postMixins M = None
             \<or> postMixins M = Some [(''validateProperties'', ValidateProperties ws)]
                \<and> list_all checksStatusOnly ws)
        \<and> processUpdate d M (plain ps) = Inr T
      \<longrightarrow> (\<exists>T'. processUpdate d T (plain []) = Inr T' \<and> props T' = props T))"
  using empty_update_props[of S d S'] empty_update_unvalidated[of S d]
    empty_update_iff[of S n vs d] empty_update_after_any_update[of M ws d ps T]
  by blast

theorem empty_update_witness:
  "list_all checksOnly (postGuards (sampleOrder ''PENDING'' 177.82))
   \<and> \<not> isl (processUpdate sampleDeps (sampleOrder ''PENDING'' 177.82) (plain []))
   \<and> props (projr (processUpdate sampleDeps (sampleOrder ''PENDING'' 177.82) (plain [])))
       = props (sampleOrder ''PENDING'' 177.82)
   \<and> preReady (plain [(''customerInfo'', JStr ''user1'')])
   \<and> postMixins (plain [(''customerInfo'', JStr ''user1'')]) = None
   \<and> (\<exists>S''. processUpdate sampleDeps (plain [(''customerInfo'', JStr ''user1'')]) (plain [])
               = Inr S'')
   \<and> preReady (sampleOrder ''PENDING'' 177.82)
   \<and> postMixins (sampleOrder ''PENDING'' 177.82)
       = Some [(''validateProperties'', ValidateProperties (orderValidations StatusChangeValid_b))]
   \<and> acceptsItself sampleDeps (orderValidations StatusChangeValid_b) (sampleOrder ''PENDING'' 177.82)
   \<and> (\<exists>S''. processUpdate sampleDeps (sampleOrder ''PENDING'' 177.82) (plain []) = Inr S'')
   \<and> preReady hashedUser
   \<and> postMixins hashedUser = Some [(''validateProperties'', ValidateProperties [passwordLength])]
   \<and> \<not> acceptsItself digestDeps [passwordLength] hashedUser
   \<and> \<not> (\<exists>S''. processUpdate digestDeps hashedUser (plain []) = Inr S'')
   \<and> list_all (\<lambda>g. registersIn g = Some Pre) (preGuards (sampleOrder ''PENDING'' 177.82))
   \<and> list_all checksStatusOnly (orderValidations StatusChangeValid_b)
   \<and> \<not> isl (processUpdate sampleDeps (sampleOrder ''PENDING'' 177.82)
               (plain [(''orderStatus'', JStr ''APPROVED'')]))
   \<and> (\<exists>T'. processUpdate sampleDeps
               (projr (processUpdate sampleDeps (sampleOrder ''PENDING'' 177.82)
                         (plain [(''orderStatus'', JStr ''APPROVED'')])))
               (plain []) = Inr T'
            \<and> props T' = props (projr (processUpdate sampleDeps (sampleOrder ''PENDING'' 177.82)
                                          (plain [(''orderStatus'', JStr ''APPROVED'')]))))"
proof -
  let ?m = "sampleOrder ''PENDING'' 177.82"
  let ?p = "plain [(''customerInfo'', JStr ''user1'')]"
  let ?c = "plain [(''orderStatus'', JStr ''APPROVED'')]"
  let ?vs = "orderValidations StatusChangeValid_b"
  have c: "list_all checksOnly (postGuards ?m)"
    by (simp add: postGuards_def sampleOrder_def orderPostMixins_def mapValues_def)
  have g: "list_all (\<lambda>g. registersIn g = Some Pre) (preGuards ?m)"
    by (simp add: preGuards_def sampleOrder_def orderPreMixins_b_def mapValues_def)
  have pm: "postMixins ?m = Some [(''validateProperties'', ValidateProperties ?vs)]"
    by (simp add: sampleOrder_def orderPostMixins_def)
  have rm: "preReady ?m"
    by (simp add: preReady_def preGuards_def sampleOrder_def orderPreMixins_b_def mapValues_def)
  have rp: "preReady ?p" "postMixins ?p = None"
    by (simp_all add: preReady_def preGuards_def)
  have rh: "preReady hashedUser"
    by (simp add: preReady_def preGuards_def hashedUser_def mapValues_def)
  have ph: "postMixins hashedUser = Some [(''validateProperties'', ValidateProperties [passwordLength])]"
    by (simp add: hashedUser_def)
  have am: "acceptsItself sampleDeps ?vs ?m" by code_simp
  have ah: "\<not> acceptsItself digestDeps [passwordLength] hashedUser" by code_simp
  have cs: "list_all checksStatusOnly ?vs"
    by (simp add: orderValidations_def orderStatusValidation_def orderTotalValidation_def
        checksStatusOnly_def)
  have e: "\<not> isl (processUpdate sampleDeps ?m (plain []))"
    by code_simp
  then have re: "processUpdate sampleDeps ?m (plain [])
                 = Inr (projr (processUpdate sampleDeps ?m (plain [])))"
    by simp
  have u: "\<not> isl (processUpdate sampleDeps ?m ?c)"
    by code_simp
  then have ru: "processUpdate sampleDeps ?m (plain [(''orderStatus'', JStr ''APPROVED'')])
                 = Inr (projr (processUpdate sampleDeps ?m ?c))"
    by simp
  from empty_update[of ?m sampleDeps "projr (processUpdate sampleDeps ?m (plain []))"] c re
  have w1: "props (projr (processUpdate sampleDeps ?m (plain []))) = props ?m"
    by (simp add: list_all_iff)
  from empty_update[of ?p sampleDeps] rp
  have w2: "\<exists>S''. processUpdate sampleDeps ?p (plain []) = Inr S''"
    by blast
  from empty_update[where S = ?m and d = sampleDeps and n = "''validateProperties''" and vs = ?vs]
    rm pm am
  have w3: "\<exists>S''. processUpdate sampleDeps ?m (plain []) = Inr S''"
    by blast
  from empty_update[where S = hashedUser and d = digestDeps and n = "''validateProperties''"
      and vs = "[passwordLength]"] rh ph ah
  have w4: "\<not> (\<exists>S''. processUpdate digestDeps hashedUser (plain []) = Inr S'')"
    by blast
  from empty_update[where d = sampleDeps and M = ?m and ws = ?vs
      and ps = "[(''orderStatus'', JStr ''APPROVED'')]"
      and T = "projr (processUpdate sampleDeps ?m ?c)"] g pm cs ru
  have w5: "\<exists>T'. processUpdate sampleDeps (projr (processUpdate sampleDeps ?m ?c)) (plain []) = Inr T'
            \<and> props T' = props (projr (processUpdate sampleDeps ?m ?c))"
    by (simp add: list_all_iff)
  from c e w1 rp w2 rm pm am w3 rh ph ah w4 g cs u w5 show ?thesis by blast
qed

text \<open>The claim as stated fails.  A model validates the length of \<^verbatim>\<open>password\<close> and then
  hashes it: the two exported guards, applied in this order to \<^verbatim>\<open>{password: 'secret'}\<close>,
  return a snapshot that holds the digest and both registrations, and the empty update
  of that snapshot throws, because the registered validation now sees the digest.\<close>

theorem empty_update_rejects_hashed_password:
  "compose (map (applyMixin digestDeps)
             [validatePropertiesMixin [passwordLength], hashPasswordsMixin [Literal ''password'']])
     (plain [(''password'', JStr ''secret'')])
     = Inr hashedUser
   \<and> processUpdate digestDeps hashedUser (plain []) = Inl (Error ''invalid value for password'')"
  by code_simp


section \<open>Sticky registration of the guards\<close>

lemma entries_OtherType [simp]: "entries OtherType o1 = []"
  by (simp add: entries_def mixinSetOf_def)

lemma entries_spread_plain [simp]: "entries t (spread a (plain ps)) = entries t a"
  by (simp add: entries_def)

lemma entries_tagged_plain [simp]: "entries t (tagged m (plain ps)) = []"
  by (cases t) (simp_all add: entries_def mixinSetOf_def tagged_def plain_def)









lemma mixinName_onUpdate [simp]: "mixinName (onUpdate m) = mixinName m"
  by (cases m) simp_all

lemma onUpdate_onUpdate [simp]: "onUpdate (onUpdate m) = onUpdate m"
  by (cases m) simp_all



















section \<open>The mixin sets of an order\<close>

text \<open>Running the guards of the order that follow \<^verbatim>\<open>requireProperties\<close> on a new object
  leaves the sets \<open>orderPreMixins\<close> and \<open>orderPostMixins\<close> on it, and its properties as
  they were.\<close>

lemma orderMixins_register:
  "(compose (map (applyMixin d) (tl orderMixins_b)) (plain ps) = Inr order \<longrightarrow>
      props order = ps \<and> preMixins order = Some orderPreMixins_b
      \<and> postMixins order = Some (orderPostMixins StatusChangeValid_b))
   \<and> (compose (map (applyMixin d) (tl orderMixins_a)) (plain ps) = Inr order \<longrightarrow>
      props order = ps \<and> preMixins order = Some orderPreMixins_a
      \<and> postMixins order = Some (orderPostMixins StatusChangeValid_a))"
  by (auto simp: orderMixins_a_def orderMixins_b_def freezePropertiesMixin_def
      updatePropertiesMixin_def validatePropertiesMixin_def allowPropertiesMixin_def
      requirePropertiesMixin_def freezeProperties_def updateProperties_def updateProps_def
      allowProperties_def validateProperties_order updateMixins_def mixinSetOf_def
      withMixinSet_def has_def plain_def spread_def spreadFields_def orElse_def
      orderPreMixins_a_def orderPreMixins_b_def orderPostMixins_def
      split: sum.splits if_splits)

end
